theory Spec2Isabelle
  imports Main "HOL-Library.Word" "HOL-Library.Option_ord" "HOL-Library.Product_Lexorder"
begin

section \<open>Data model\<close>

text \<open>
  The skin generator of api.mineskin.org: the class \<^verbatim>\<open>Generator\<close>, the statics and
  methods of \<^verbatim>\<open>AccountSchema\<close>, and \<^verbatim>\<open>authenticate\<close> of
  \<^verbatim>\<open>generator/authentication.js\<close>. One request is followed from its start to its
  end; what it awaits from outside (the network, the clock, the libraries) is given by
  an environment, and the two collections, the locked accounts, the temporary files and
  a log of events are the state it passes on. Documents of the collections carry the
  MongoDB \<^verbatim>\<open>_id\<close> (here \<open>skin_oid\<close>, \<open>acc_oid\<close>): \<^verbatim>\<open>save()\<close> writes the document
  with that key, and is taken to succeed. A schema field without a value is \<open>None\<close>.
\<close>

text \<open>\<^verbatim>\<open>SkinModel\<close>; the schema stores it as "steve", "slim" or "unknown".\<close>

datatype SkinModel = CLASSIC | SLIM | UNKNOWN

fun SkinModel_str :: "SkinModel \<Rightarrow> string" where
  "SkinModel_str CLASSIC = ''steve''"
| "SkinModel_str SLIM = ''slim''"
| "SkinModel_str UNKNOWN = ''unknown''"

datatype GenerateType = URL | UPLOAD | USER

datatype GenError =
    FAILED_TO_CREATE_ID
  | NO_ACCOUNT_AVAILABLE
  | SKIN_CHANGE_FAILED
  | INVALID_IMAGE
  | INVALID_IMAGE_URL
  | INVALID_IMAGE_UPLOAD
  | INVALID_SKIN_DATA

text \<open>
  What a \<^verbatim>\<open>throw\<close> carries: a \<^verbatim>\<open>GeneratorError\<close> with its code, an
  \<^verbatim>\<open>AuthenticationError\<close>, the \<^verbatim>\<open>MineSkinError('unknown')\<close> of
  \<^verbatim>\<open>getDuplicateOrSaved\<close>, or any other JavaScript error (a \<^verbatim>\<open>TypeError\<close>, a
  network error).
\<close>

datatype error =
    GeneratorError GenError
  | AuthenticationError
  | MineSkinError_unknown
  | OtherError

datatype DuplicateSource = MINESKIN_URL | TEXTURE_URL | IMAGE_HASH | USER_UUID

record Skin =
  skin_oid :: nat
  skin_id :: nat
  skin_hash :: "string option"
  skin_uuid :: "string option"
  skin_name :: string
  skin_model :: SkinModel
  skin_visibility :: nat
  skin_value :: string
  skin_signature :: string
  skin_url :: string
  skin_minecraftTextureHash :: "string option"
  skin_textureHash :: "string option"
  skin_time :: int
  skin_generateDuration :: int
  skin_account :: "nat option"
  skin_type :: GenerateType
  skin_via :: string
  skin_ua :: string
  duplicate :: int
  views :: int

record Account =
  acc_oid :: nat
  acc_id :: nat
  acc_uuid :: string
  enabled :: bool
  requestServer :: "string option"
  lastRequestServer :: "string option"
  lastSelected :: "int option"
  lastUsed :: "int option"
  timeAdded :: "int option"
  forcedTimeoutAt :: "int option"
  errorCounter :: "int option"
  successCounter :: "int option"
  totalErrorCounter :: "int option"
  totalSuccessCounter :: "int option"
  sameTextureCounter :: "int option"
  accessToken :: "string option"
  clientToken :: "string option"

record GenerateOptions =
  opt_name :: string
  opt_model :: SkinModel
  opt_visibility :: nat

record ClientInfo =
  via :: string
  userAgent :: string

text \<open>\<^verbatim>\<open>types/SkinData.ts\<close>.\<close>

record Texture =
  tex_url :: string

record Textures =
  SKIN :: "Texture option"
  CAPE :: "Texture option"

record SkinValue =
  textures :: "Textures option"

record SkinData =
  data_value :: string
  data_signature :: string
  decodedValue :: "SkinValue option"

record SkinMeta =
  meta_uuid :: string
  meta_imageHash :: "string option"
  meta_mojangHash :: string

text \<open>The decoded image of \<^verbatim>\<open>Jimp.read\<close>: \<^verbatim>\<open>bitmap.data\<close> holds four bytes (RGBA) a pixel.\<close>

record Bitmap =
  bm_width :: nat
  bm_height :: nat
  bm_data :: "8 word list"

text \<open>
  What the generator sees of a file's bytes: \<^verbatim>\<open>buffer.byteLength\<close>, the result of
  \<^verbatim>\<open>imageSize\<close> (\<open>None\<close>: it throws), the MIME type of \<^verbatim>\<open>fileType.fromBuffer\<close>
  (\<open>None\<close>: undefined), the image of \<^verbatim>\<open>Jimp.read\<close> (\<open>None\<close>: it throws) and the
  \<^verbatim>\<open>imageHash\<close>.
\<close>

record FileContent =
  byteLength :: nat
  imageSize :: "(nat \<times> nat) option"
  fileType_mime :: "string option"
  jimp :: "Bitmap option"
  imageHash :: string

text \<open>An \<^verbatim>\<open>UploadedFile\<close>: its bytes, and whether moving it to the temporary file fails.\<close>

record UploadedFile =
  upload_data :: FileContent
  upload_mv_fails :: bool

text \<open>The response of the HEAD request of \<^verbatim>\<open>followUrl\<close>.\<close>

record AxiosResponse =
  responseUrl :: string
  content_type :: "string option"
  content_length :: "nat option"

text \<open>How the POST to \<^verbatim>\<open>/minecraft/profile/skins\<close> ends: fulfilled, rejected with
  \<^verbatim>\<open>err.response\<close> set, or rejected without a response.\<close>

datatype SkinChange = Changed | RejectedWithResponse | RejectedNoResponse

text \<open>What one request does to the world outside the two collections.\<close>

datatype event =
    AccountLocked nat
  | SkinChangeRequest nat
  | DuplicateMetric DuplicateSource GenerateType
  | NewMetric GenerateType
  | DurationMetric GenerateType
  | TempCreated nat
  | TempRemoved nat

text \<open>
  The state a request runs in: the two collections, the locked accounts of
  \<^verbatim>\<open>Caching\<close>, the temporary files that exist (handle and content) and the log of
  events.
\<close>

record world =
  skins :: "Skin list"
  accounts :: "Account list"
  lockedAccounts :: "nat list"
  tempFiles :: "(nat \<times> FileContent) list"
  events :: "event list"

text \<open>
  What a request takes from outside the generator: the configuration, the library
  functions (\<^verbatim>\<open>optimus.encode\<close>, \<^verbatim>\<open>random32BitNumber\<close> by the number of the draw,
  \<^verbatim>\<open>URL.parse\<close>, the matches of the two regular expressions with \<^verbatim>\<open>parseInt\<close>
  applied, \<^verbatim>\<open>uuid()\<close>, the helpers of \<^verbatim>\<open>util\<close>), the answers of the network (the
  HEAD request, the downloads, \<^verbatim>\<open>Authentication.authenticate\<close>, the skin change, the
  profile of \<^verbatim>\<open>Caching.getSkinData\<close>) and the clock readings, in epoch seconds where
  the code floors \<^verbatim>\<open>Date.now() / 1000\<close> and in milliseconds elsewhere.
\<close>

record env =
  server :: string
  errorThreshold :: "int option"
  encode :: "32 word \<Rightarrow> nat"
  random32BitNumber :: "nat \<Rightarrow> 32 word"
  url_host :: "string \<Rightarrow> string"
  head_request :: "string \<Rightarrow> AxiosResponse option"
  mineskinUrlMatch :: "string \<Rightarrow> nat option"
  textureUrlMatch :: "string \<Rightarrow> (string \<times> string) option"
  download :: "string \<Rightarrow> FileContent option"
  Authentication_authenticate :: "Account \<Rightarrow> error + Account"
  skinChange :: SkinChange
  caching_getSkinData :: "string \<Rightarrow> error + SkinData option"
  json_decode :: "string \<Rightarrow> error + SkinValue option"
  stripUuid :: "string \<Rightarrow> string"
  longAndShortUuid :: "string \<Rightarrow> (string \<times> string) option"
  getHashFromMojangTextureUrl :: "string \<Rightarrow> string option"
  new_uuid :: string
  time_selected :: int
  time_used :: int
  time_error :: int
  time_saved :: int
  start_ms :: int
  now_ms :: int

section \<open>The catalog\<close>

text \<open>\<^verbatim>\<open>Model.findOne\<close>: the first document that matches.\<close>

definition findOne :: "('a \<Rightarrow> bool) \<Rightarrow> 'a list \<Rightarrow> 'a option" where
  "findOne p xs = find p xs"

text \<open>\<^verbatim>\<open>document.save()\<close> of a document that was found: the document of that
  \<^verbatim>\<open>_id\<close> is replaced.\<close>

definition save_skin :: "Skin \<Rightarrow> world \<Rightarrow> world" where
  "save_skin s w = w\<lparr>skins := map (\<lambda>x. if skin_oid x = skin_oid s then s else x) (skins w)\<rparr>"

definition save_account :: "Account \<Rightarrow> world \<Rightarrow> world" where
  "save_account a w =
     w\<lparr>accounts := map (\<lambda>x. if acc_oid x = acc_oid a then a else x) (accounts w)\<rparr>"

text \<open>A key that is new: the \<^verbatim>\<open>_id\<close> of a new document, the name of a new temporary
  file.\<close>

definition fresh :: "nat list \<Rightarrow> nat" where
  "fresh ks = Suc (fold max ks 0)"

text \<open>\<^verbatim>\<open>save()\<close> of a \<^verbatim>\<open>new Skin(...)\<close>: the document is added.\<close>

definition insert_skin :: "Skin \<Rightarrow> world \<Rightarrow> Skin \<times> world" where
  "insert_skin s w =
     (let s' = s\<lparr>skin_oid := fresh (map skin_oid (skins w))\<rparr>
      in (s', w\<lparr>skins := skins w @ [s']\<rparr>))"

definition emit :: "event \<Rightarrow> world \<Rightarrow> world" where
  "emit e w = w\<lparr>events := events w @ [e]\<rparr>"

text \<open>What JavaScript takes for true of an optional string.\<close>

definition truthy :: "string option \<Rightarrow> bool" where
  "truthy s = (case s of None \<Rightarrow> False | Some x \<Rightarrow> x \<noteq> [])"

section \<open>Skin ids\<close>

definition MAX_ID_TRIES :: nat where
  "MAX_ID_TRIES = 10"

text \<open>
  \<^verbatim>\<open>makeRandomSkinId(tryN)\<close>. The second component counts the draws of
  \<^verbatim>\<open>random32BitNumber\<close>: \<open>k\<close> have been made before the call.
\<close>

function makeRandomSkinId :: "env \<Rightarrow> world \<Rightarrow> nat \<Rightarrow> nat \<Rightarrow> (error + nat) \<times> nat" where
  "makeRandomSkinId E w k tryN =
     (if tryN > MAX_ID_TRIES then (Inl (GeneratorError FAILED_TO_CREATE_ID), k)
      else
        let rand = random32BitNumber E k;
            newId = encode E rand;
            existing = findOne (\<lambda>s. skin_id s = newId) (skins w)
        in if existing \<noteq> None then makeRandomSkinId E w (Suc k) (tryN + 1)
           else (Inr newId, Suc k))"
  by pat_completeness auto
termination
  by (relation "measure (\<lambda>(E, w, k, tryN). Suc MAX_ID_TRIES - tryN)") auto

definition makeNewSkinId :: "env \<Rightarrow> world \<Rightarrow> (error + nat) \<times> nat" where
  "makeNewSkinId E w = makeRandomSkinId E w 0 0"

text \<open>The value of \<^verbatim>\<open>GenerateResult\<close>.\<close>

record GenerateResult =
  res_duplicate :: "Skin option"
  res_data :: "SkinData option"
  res_meta :: "SkinMeta option"
  res_account :: "Account option"

definition no_result :: GenerateResult where
  "no_result = \<lparr>res_duplicate = None, res_data = None, res_meta = None, res_account = None\<rparr>"

text \<open>\<^verbatim>\<open>data.decodedValue!.textures!.SKIN!.url\<close>; \<open>None\<close> where the access throws.\<close>

definition texture_url :: "SkinData \<Rightarrow> string option" where
  "texture_url d =
     (case decodedValue d of
        None \<Rightarrow> None
      | Some dv \<Rightarrow>
          (case textures dv of
             None \<Rightarrow> None
           | Some ts \<Rightarrow> (case SKIN ts of None \<Rightarrow> None | Some t \<Rightarrow> Some (tex_url t))))"

text \<open>
  \<^verbatim>\<open>saveSkin\<close>. The id is made first; a missing \<^verbatim>\<open>data\<close>, \<^verbatim>\<open>decodedValue\<close>,
  \<^verbatim>\<open>textures\<close> or \<^verbatim>\<open>SKIN\<close> makes the property access throw.
\<close>

definition saveSkin ::
  "env \<Rightarrow> GenerateResult \<Rightarrow> GenerateOptions \<Rightarrow> ClientInfo \<Rightarrow> GenerateType \<Rightarrow> int \<Rightarrow> world
    \<Rightarrow> (error + Skin) \<times> world" where
  "saveSkin E result options client type start w =
     (case fst (makeNewSkinId E w) of
        Inl e \<Rightarrow> (Inl e, w)
      | Inr newId \<Rightarrow>
          (case res_data result of
             None \<Rightarrow> (Inl OtherError, w)
           | Some d \<Rightarrow>
               (case texture_url d of
                  None \<Rightarrow> (Inl OtherError, w)
                | Some u \<Rightarrow>
                    (let skin = \<lparr>
                           skin_oid = 0,
                           skin_id = newId,
                           skin_hash = Option.bind (res_meta result) meta_imageHash,
                           skin_uuid = map_option meta_uuid (res_meta result),
                           skin_name = opt_name options,
                           skin_model = opt_model options,
                           skin_visibility = opt_visibility options,
                           skin_value = data_value d,
                           skin_signature = data_signature d,
                           skin_url = u,
                           skin_minecraftTextureHash = getHashFromMojangTextureUrl E u,
                           skin_textureHash = map_option meta_mojangHash (res_meta result),
                           skin_time = time_saved E,
                           skin_generateDuration = now_ms E - start,
                           skin_account = map_option acc_id (res_account result),
                           skin_type = type,
                           skin_via = via client,
                           skin_ua = userAgent client,
                           duplicate = 0,
                           views = 0\<rparr>;
                         (saved, w') = insert_skin skin w
                     in (Inr saved, w')))))"

text \<open>\<^verbatim>\<open>getDuplicateOrSaved\<close>.\<close>

definition getDuplicateOrSaved ::
  "env \<Rightarrow> GenerateResult \<Rightarrow> GenerateOptions \<Rightarrow> ClientInfo \<Rightarrow> GenerateType \<Rightarrow> int \<Rightarrow> world
    \<Rightarrow> (error + Skin) \<times> world" where
  "getDuplicateOrSaved E result options client type start w =
     (case res_duplicate result of
        Some d \<Rightarrow> (Inr d, w)
      | None \<Rightarrow>
          (case res_data result of
             Some d \<Rightarrow> saveSkin E result options client type start (emit (NewMetric type) w)
           | None \<Rightarrow> (Inl MineSkinError_unknown, w)))"

section \<open>Temporary files\<close>

text \<open>
  Modelled from the spec: the temp-file manager \<^verbatim>\<open>Temp\<close> and \<^verbatim>\<open>TempFile\<close>
  (\<^verbatim>\<open>generator/Temp\<close> is not among the sources): \<^verbatim>\<open>acquire(dir)\<close> gives a handle on
  a new file, \<^verbatim>\<open>downloadTo(handle, url)\<close> streams a response to it,
  \<^verbatim>\<open>handle.release()\<close> deletes it. \<^verbatim>\<open>fs.readFile\<close> gives the content of a file that
  exists.
\<close>

definition empty_file :: FileContent where
  "empty_file =
     \<lparr>byteLength = 0, imageSize = None, fileType_mime = None, jimp = None, imageHash = []\<rparr>"

definition Temp_file :: "world \<Rightarrow> nat \<times> world" where
  "Temp_file w =
     (let h = fresh (map fst (tempFiles w))
      in (h, emit (TempCreated h) (w\<lparr>tempFiles := (h, empty_file) # tempFiles w\<rparr>)))"

definition Temp_write :: "nat \<Rightarrow> FileContent \<Rightarrow> world \<Rightarrow> world" where
  "Temp_write h c w =
     w\<lparr>tempFiles := map (\<lambda>(k, v). if k = h then (k, c) else (k, v)) (tempFiles w)\<rparr>"

definition Temp_remove :: "nat \<Rightarrow> world \<Rightarrow> world" where
  "Temp_remove h w =
     emit (TempRemoved h) (w\<lparr>tempFiles := filter (\<lambda>(k, v). k \<noteq> h) (tempFiles w)\<rparr>)"

definition Temp_downloadImage :: "env \<Rightarrow> string \<Rightarrow> nat \<Rightarrow> world \<Rightarrow> world option" where
  "Temp_downloadImage E url h w =
     (case download E url of None \<Rightarrow> None | Some c \<Rightarrow> Some (Temp_write h c w))"

definition Temp_copyUploadedImage :: "UploadedFile \<Rightarrow> nat \<Rightarrow> world \<Rightarrow> world option" where
  "Temp_copyUploadedImage file h w =
     (if upload_mv_fails file then None else Some (Temp_write h (upload_data file) w))"

definition readFile :: "nat \<Rightarrow> world \<Rightarrow> FileContent option" where
  "readFile h w = map_of (tempFiles w) h"

section \<open>Duplicate checks\<close>

text \<open>
  The block the four probes share once a skin was found: \<^verbatim>\<open>existingSkin.duplicate++\<close>,
  the \<^verbatim>\<open>DUPLICATES_METRIC\<close> and \<^verbatim>\<open>existingSkin.save()\<close>.
\<close>

definition countDuplicate ::
  "Skin \<Rightarrow> DuplicateSource \<Rightarrow> GenerateType \<Rightarrow> world \<Rightarrow> Skin option \<times> world" where
  "countDuplicate existingSkin source type w =
     (let s = existingSkin\<lparr>duplicate := duplicate existingSkin + 1\<rparr>
      in (Some s, save_skin s (emit (DuplicateMetric source type) w)))"

definition findDuplicateFromUrl ::
  "env \<Rightarrow> string \<Rightarrow> GenerateOptions \<Rightarrow> GenerateType \<Rightarrow> world \<Rightarrow> Skin option \<times> world" where
  "findDuplicateFromUrl E url options type w =
     (if url = [] \<or> length url < 8 \<or> take 4 url \<noteq> ''http'' then (None, w)
      else
        (case mineskinUrlMatch E url of
           Some mineskinId \<Rightarrow>
             (case findOne (\<lambda>s. skin_id s = mineskinId \<and> skin_name s = opt_name options \<and>
                        skin_model s = opt_model options \<and>
                        skin_visibility s = opt_visibility options) (skins w) of
                Some existingSkin \<Rightarrow> countDuplicate existingSkin MINESKIN_URL type w
              | None \<Rightarrow> (None, w))
         | None \<Rightarrow>
             (case textureUrlMatch E url of
                Some (textureUrl, textureHash) \<Rightarrow>
                  (case findOne (\<lambda>s. (skin_url s = textureUrl \<or>
                               skin_minecraftTextureHash s = Some textureHash) \<and>
                             skin_name s = opt_name options \<and>
                             skin_model s = opt_model options \<and>
                             skin_visibility s = opt_visibility options) (skins w) of
                     Some existingSkin \<Rightarrow> countDuplicate existingSkin TEXTURE_URL type w
                   | None \<Rightarrow> (None, w))
              | None \<Rightarrow> (None, w))))"

text \<open>
  \<^verbatim>\<open>findDuplicateFromImageHash\<close> and \<^verbatim>\<open>findDuplicateFromUuid\<close>: the query compares
  the stored \<^verbatim>\<open>model\<close> with \<^verbatim>\<open>options.name\<close>.
\<close>

definition findDuplicateFromImageHash ::
  "string \<Rightarrow> GenerateOptions \<Rightarrow> GenerateType \<Rightarrow> world \<Rightarrow> Skin option \<times> world" where
  "findDuplicateFromImageHash hash options type w =
     (if hash = [] \<or> length hash < 30 then (None, w)
      else
        (case findOne (\<lambda>s. skin_hash s = Some hash \<and> skin_name s = opt_name options \<and>
                   SkinModel_str (skin_model s) = opt_name options \<and>
                   skin_visibility s = opt_visibility options) (skins w) of
           Some existingSkin \<Rightarrow> countDuplicate existingSkin IMAGE_HASH type w
         | None \<Rightarrow> (None, w)))"

definition findDuplicateFromUuid ::
  "string \<Rightarrow> GenerateOptions \<Rightarrow> GenerateType \<Rightarrow> world \<Rightarrow> Skin option \<times> world" where
  "findDuplicateFromUuid uuid options type w =
     (if uuid = [] \<or> length uuid < 34 then (None, w)
      else
        (case findOne (\<lambda>s. skin_uuid s = Some uuid \<and> skin_name s = opt_name options \<and>
                   SkinModel_str (skin_model s) = opt_name options \<and>
                   skin_visibility s = opt_visibility options) (skins w) of
           Some existingSkin \<Rightarrow> countDuplicate existingSkin USER_UUID type w
         | None \<Rightarrow> (None, w)))"

section \<open>Validation\<close>

definition MAX_IMAGE_SIZE :: nat where
  "MAX_IMAGE_SIZE = 20000"

definition ALLOWED_IMAGE_TYPES :: "string list" where
  "ALLOWED_IMAGE_TYPES = [''image/png'']"

text \<open>
  \<^verbatim>\<open>image.scan(x, y, w, h, f)\<close> of Jimp calls \<open>f\<close> row by row on the pixels of the
  rectangle, with \<^verbatim>\<open>idx = (bitmap.width * y + x) << 2\<close>; \<^verbatim>\<open>bitmap.data[i]\<close> is
  undefined past the end of the buffer.
\<close>

definition scan :: "nat \<Rightarrow> nat \<Rightarrow> nat \<Rightarrow> nat \<Rightarrow> (nat \<times> nat) list" where
  "scan x y w h = concat (map (\<lambda>y'. map (\<lambda>x'. (x', y')) [x..<x + w]) [y..<y + h])"

definition pixel_idx :: "Bitmap \<Rightarrow> nat \<Rightarrow> nat \<Rightarrow> nat" where
  "pixel_idx img x y = (bm_width img * y + x) * 4"

definition data_at :: "Bitmap \<Rightarrow> nat \<Rightarrow> 8 word option" where
  "data_at img i = (if i < length (bm_data img) then Some (bm_data img ! i) else None)"

text \<open>\<^verbatim>\<open>validateImageData\<close>, on the result of \<^verbatim>\<open>Jimp.read(buffer)\<close>.\<close>

definition validateImageData :: "Bitmap option \<Rightarrow> error + SkinModel" where
  "validateImageData buffer =
     (case buffer of
        None \<Rightarrow> Inl OtherError
      | Some img \<Rightarrow>
          (let width = bm_width img; height = bm_height img
           in if width \<noteq> 64 \<or> (height \<noteq> 64 \<and> height \<noteq> 32)
              then Inl (GeneratorError INVALID_IMAGE)
              else if height < 64 then Inr CLASSIC
              else
                (let allTransparent =
                       fold (\<lambda>(x, y) allTransparent.
                               if data_at img (pixel_idx img x y + 3) = Some 255
                               then False else allTransparent)
                         (scan 54 20 2 12) True
                 in if allTransparent then Inr SLIM else Inr CLASSIC)))"

record TempFileValidationResult =
  val_duplicate :: "Skin option"
  val_buffer :: "FileContent option"
  val_size :: "nat option"
  val_dimensions :: "(nat \<times> nat) option"
  val_fileType :: "string option"
  val_hash :: "string option"

text \<open>\<^verbatim>\<open>validateTempFile\<close>; it may overwrite \<^verbatim>\<open>options.model\<close>, so the options are
  returned.\<close>

definition validateTempFile ::
  "nat \<Rightarrow> GenerateOptions \<Rightarrow> GenerateType \<Rightarrow> world
    \<Rightarrow> (error + TempFileValidationResult) \<times> GenerateOptions \<times> world" where
  "validateTempFile tempFile options type w =
     (case readFile tempFile w of
        None \<Rightarrow> (Inl OtherError, options, w)
      | Some imageBuffer \<Rightarrow>
          (let size' = byteLength imageBuffer
           in if size' = 0 \<or> size' < 100 \<or> size' > MAX_IMAGE_SIZE
              then (Inl (GeneratorError INVALID_IMAGE), options, w)
              else
                (case imageSize imageBuffer of
                   None \<Rightarrow> (Inl OtherError, options, w)
                 | Some (width, height) \<Rightarrow>
                     if width \<noteq> 64 \<or> (height \<noteq> 64 \<and> height \<noteq> 32)
                     then (Inl (GeneratorError INVALID_IMAGE), options, w)
                     else if (case fileType_mime imageBuffer of
                                None \<Rightarrow> True
                              | Some mime \<Rightarrow>
                                  take 5 mime \<noteq> ''image'' \<or> mime \<notin> set ALLOWED_IMAGE_TYPES)
                     then (Inl (GeneratorError INVALID_IMAGE), options, w)
                     else
                       (case validateImageData (jimp imageBuffer) of
                          Inl e \<Rightarrow> (Inl e, options, w)
                        | Inr detected \<Rightarrow>
                            (let options' =
                                   (if opt_model options = UNKNOWN \<and> detected \<noteq> UNKNOWN
                                    then options\<lparr>opt_model := detected\<rparr> else options);
                                 imgHash = imageHash imageBuffer
                             in (case findDuplicateFromImageHash imgHash options' type w of
                                   (Some hashDuplicate, w') \<Rightarrow>
                                     (Inr \<lparr>val_duplicate = Some hashDuplicate, val_buffer = None,
                                           val_size = None, val_dimensions = None,
                                           val_fileType = None, val_hash = None\<rparr>,
                                      options', w')
                                 | (None, w') \<Rightarrow>
                                     (Inr \<lparr>val_duplicate = None,
                                           val_buffer = Some imageBuffer,
                                           val_size = Some size',
                                           val_dimensions = Some (width, height),
                                           val_fileType = fileType_mime imageBuffer,
                                           val_hash = Some imgHash\<rparr>,
                                      options', w')))))))"

section \<open>Accounts\<close>

text \<open>
  The comparison \<^verbatim>\<open>{ $lt: bound }\<close> of a query: a document without the field does
  not match.
\<close>

definition mongo_lt :: "int option \<Rightarrow> int \<Rightarrow> bool" where
  "mongo_lt field bound = (case field of None \<Rightarrow> False | Some v \<Rightarrow> v < bound)"

text \<open>\<^verbatim>\<open>config.errorThreshold || 10\<close>.\<close>

definition error_threshold :: "env \<Rightarrow> int" where
  "error_threshold E =
     (case errorThreshold E of None \<Rightarrow> 10 | Some t \<Rightarrow> if t = 0 then 10 else t)"

text \<open>
  Modelled from the spec: the locked set of \<^verbatim>\<open>Caching\<close> (\<^verbatim>\<open>generator/Caching\<close> is
  not among the sources), a set of account ids that lives in the serving process: the
  eligibility query consults it, and an id enters it on acquire.
\<close>

definition getLockedAccounts :: "world \<Rightarrow> nat list" where
  "getLockedAccounts w = lockedAccounts w"

definition lockSelectedAccount :: "nat \<Rightarrow> world \<Rightarrow> world" where
  "lockSelectedAccount i w = emit (AccountLocked i) (w\<lparr>lockedAccounts := i # lockedAccounts w\<rparr>)"

text \<open>The filter of the query of \<^verbatim>\<open>findUsable\<close>; \<open>locked\<close> is
  \<^verbatim>\<open>Caching.getLockedAccounts()\<close>.\<close>

definition usable :: "env \<Rightarrow> int \<Rightarrow> nat list \<Rightarrow> Account \<Rightarrow> bool" where
  "usable E time locked a \<longleftrightarrow>
     enabled a \<and>
     acc_id a \<notin> set locked \<and>
     (requestServer a = None \<or> requestServer a = None \<or>
        requestServer a \<in> set [Some ''default'', Some (server E)]) \<and>
     (lastSelected a = None \<or> mongo_lt (lastSelected a) (time - 50)) \<and>
     (lastUsed a = None \<or> mongo_lt (lastUsed a) (time - 100)) \<and>
     (forcedTimeoutAt a = None \<or> mongo_lt (forcedTimeoutAt a) (time - 500)) \<and>
     mongo_lt (errorCounter a) (error_threshold E) \<and>
     mongo_lt (timeAdded a) (time - 60)"

text \<open>\<^verbatim>\<open>if (!account.counter) account.counter = 0\<close>.\<close>

definition or_zero :: "int option \<Rightarrow> int option" where
  "or_zero c = (case c of None \<Rightarrow> Some 0 | Some n \<Rightarrow> Some n)"

text \<open>
  \<^verbatim>\<open>Account.findUsable\<close>: the first match in the order of \<^verbatim>\<open>lastUsed\<close>,
  \<^verbatim>\<open>lastSelected\<close>, \<^verbatim>\<open>sameTextureCounter\<close> (a missing field sorts first); it is
  locked, stamped and saved.
\<close>

definition findUsable :: "env \<Rightarrow> world \<Rightarrow> Account option \<times> world" where
  "findUsable E w =
     (let time = time_selected E
      in case sort_key (\<lambda>a. (lastUsed a, lastSelected a, sameTextureCounter a))
                (filter (usable E time (getLockedAccounts w)) (accounts w)) of
           [] \<Rightarrow> (None, w)
         | account # rest \<Rightarrow>
             (let w1 = lockSelectedAccount (acc_id account) w;
                  account' = account\<lparr>
                    lastSelected := Some time,
                    successCounter := or_zero (successCounter account),
                    errorCounter := or_zero (errorCounter account),
                    totalSuccessCounter := or_zero (totalSuccessCounter account),
                    totalErrorCounter := or_zero (totalErrorCounter account)\<rparr>
              in (Some account', save_account account' w1)))"

text \<open>\<^verbatim>\<open>account.updateRequestServer(newRequestServer)\<close>.\<close>

definition updateRequestServer :: "string option \<Rightarrow> Account \<Rightarrow> Account" where
  "updateRequestServer newRequestServer a =
     (let a1 = (if truthy (requestServer a) \<and> requestServer a \<noteq> newRequestServer
                then a\<lparr>lastRequestServer := requestServer a\<rparr> else a)
      in a1\<lparr>requestServer := newRequestServer\<rparr>)"

text \<open>\<^verbatim>\<open>getAndAuthenticateAccount\<close>.\<close>

definition getAndAuthenticateAccount :: "env \<Rightarrow> world \<Rightarrow> (error + Account) \<times> world" where
  "getAndAuthenticateAccount E w =
     (case findUsable E w of
        (None, w1) \<Rightarrow> (Inl (GeneratorError NO_ACCOUNT_AVAILABLE), w1)
      | (Some account, w1) \<Rightarrow>
          (case Authentication_authenticate E account of
             Inl e \<Rightarrow> (Inl e, w1)
           | Inr account' \<Rightarrow>
               (Inr (updateRequestServer (Some (server E))
                       (account'\<lparr>lastUsed := Some (time_used E)\<rparr>)), w1)))"

text \<open>\<^verbatim>\<open>counter++\<close>; a counter that is no number stays none.\<close>

definition incr :: "int option \<Rightarrow> int option" where
  "incr c = map_option (\<lambda>n. n + 1) c"

text \<open>\<^verbatim>\<open>handleGenerateSuccess\<close> and \<^verbatim>\<open>handleGenerateError\<close>: the account as they
  leave it, and the world with it saved.\<close>

definition handleGenerateSuccess :: "Account option \<Rightarrow> world \<Rightarrow> Account option \<times> world" where
  "handleGenerateSuccess account w =
     (case account of
        None \<Rightarrow> (None, w)
      | Some a \<Rightarrow>
          (let a' = a\<lparr>errorCounter := Some 0,
                      successCounter := incr (successCounter a),
                      totalSuccessCounter := incr (totalSuccessCounter a)\<rparr>
           in (Some a', save_account a' w)))"

definition handleGenerateError ::
  "env \<Rightarrow> error \<Rightarrow> Account option \<Rightarrow> world \<Rightarrow> Account option \<times> world" where
  "handleGenerateError E e account w =
     (case account of
        None \<Rightarrow> (None, w)
      | Some a \<Rightarrow>
          (let a1 = a\<lparr>successCounter := Some 0,
                      errorCounter := incr (errorCounter a),
                      totalErrorCounter := incr (totalErrorCounter a)\<rparr>;
               a2 = (if e = AuthenticationError
                     then updateRequestServer None (a1\<lparr>forcedTimeoutAt := Some (time_error E)\<rparr>)
                     else a1)
           in (Some a2, save_account a2 w)))"

section \<open>Generation\<close>

text \<open>\<^verbatim>\<open>getSkinData\<close>, of an account's or a user's uuid.\<close>

definition getSkinData :: "env \<Rightarrow> string \<Rightarrow> error + SkinData" where
  "getSkinData E uuid =
     (case caching_getSkinData E (stripUuid E uuid) of
        Inl e \<Rightarrow> Inl e
      | Inr None \<Rightarrow> Inl (GeneratorError INVALID_SKIN_DATA)
      | Inr (Some data) \<Rightarrow>
          if data_value data = [] then Inl (GeneratorError INVALID_SKIN_DATA)
          else
            (case json_decode E (data_value data) of
               Inl e \<Rightarrow> Inl e
             | Inr decoded \<Rightarrow>
                 (let data' = data\<lparr>decodedValue := decoded\<rparr>
                  in case texture_url data' of
                       None \<Rightarrow> Inl (GeneratorError INVALID_SKIN_DATA)
                     | Some u \<Rightarrow> Inr data')))"

text \<open>\<^verbatim>\<open>getMojangHash\<close>: the temporary file is removed in the \<^verbatim>\<open>finally\<close> block.\<close>

definition getMojangHash :: "env \<Rightarrow> string \<Rightarrow> world \<Rightarrow> (error + string) \<times> world" where
  "getMojangHash E url w =
     (let (tempFile, w1) = Temp_file w;
          (r, w2) =
            (case Temp_downloadImage E url tempFile w1 of
               None \<Rightarrow> (Inl OtherError, w1)
             | Some w' \<Rightarrow>
                 (case readFile tempFile w' of
                    None \<Rightarrow> (Inl OtherError, w')
                  | Some imageBuffer \<Rightarrow> (Inr (imageHash imageBuffer), w')))
      in (r, Temp_remove tempFile w2))"

text \<open>\<^verbatim>\<open>followUrl\<close>: a request that throws is caught and gives undefined.\<close>

definition URL_FOLLOW_WHITELIST :: "string list" where
  "URL_FOLLOW_WHITELIST = [''novask.in'', ''imgur.com'']"

definition followUrl :: "env \<Rightarrow> string \<Rightarrow> AxiosResponse option" where
  "followUrl E urlStr =
     (if urlStr = [] then None
      else if url_host E urlStr \<in> set URL_FOLLOW_WHITELIST then head_request E urlStr
      else None)"

text \<open>
  The block \<^verbatim>\<open>/// Run generation for new skin\<close>, the same in \<^verbatim>\<open>generateFromUrl\<close>
  and \<^verbatim>\<open>generateFromUpload\<close> but for the body of the request. It gives the result
  or the error thrown, the variable \<^verbatim>\<open>account\<close> as it is then, and the world.
\<close>

definition runGeneration ::
  "env \<Rightarrow> TempFileValidationResult \<Rightarrow> world
    \<Rightarrow> (error + GenerateResult) \<times> Account option \<times> world" where
  "runGeneration E tempFileValidation w =
     (case getAndAuthenticateAccount E w of
        (Inl e, w1) \<Rightarrow> (Inl e, None, w1)
      | (Inr account, w1) \<Rightarrow>
          (let w2 = emit (SkinChangeRequest (acc_id account)) w1
           in case skinChange E of
                RejectedWithResponse \<Rightarrow>
                  (Inl (GeneratorError SKIN_CHANGE_FAILED), Some account, w2)
              | RejectedNoResponse \<Rightarrow> (Inl OtherError, Some account, w2)
              | Changed \<Rightarrow>
                  (case getSkinData E (acc_uuid account) of
                     Inl e \<Rightarrow> (Inl e, Some account, w2)
                   | Inr data \<Rightarrow>
                       (case texture_url data of
                          None \<Rightarrow> (Inl OtherError, Some account, w2)
                        | Some u \<Rightarrow>
                            (case getMojangHash E u w2 of
                               (Inl e, w3) \<Rightarrow> (Inl e, Some account, w3)
                             | (Inr mojangHash, w3) \<Rightarrow>
                                 (let (account', w4) = handleGenerateSuccess (Some account) w3
                                  in (Inr \<lparr>res_duplicate = None, res_data = Some data,
                                           res_meta = Some \<lparr>meta_uuid = new_uuid E,
                                             meta_imageHash = val_hash tempFileValidation,
                                             meta_mojangHash = mojangHash\<rparr>,
                                           res_account = account'\<rparr>,
                                      account', w4)))))))"

text \<open>
  The \<^verbatim>\<open>try\<close> block of a generator, after the temporary file has its content:
  validation, then the generation.
\<close>

definition validateAndGenerate ::
  "env \<Rightarrow> nat \<Rightarrow> GenerateOptions \<Rightarrow> GenerateType \<Rightarrow> world
    \<Rightarrow> (error + GenerateResult) \<times> Account option \<times> GenerateOptions \<times> world" where
  "validateAndGenerate E tempFile options type w =
     (case validateTempFile tempFile options type w of
        (Inl e, options', w1) \<Rightarrow> (Inl e, None, options', w1)
      | (Inr tempFileValidation, options', w1) \<Rightarrow>
          (case val_duplicate tempFileValidation of
             Some d \<Rightarrow> (Inr (no_result\<lparr>res_duplicate := Some d\<rparr>), None, options', w1)
           | None \<Rightarrow>
               (case runGeneration E tempFileValidation w1 of
                  (r, account, w2) \<Rightarrow> (r, account, options', w2))))"

text \<open>
  The \<^verbatim>\<open>try\<close> block of \<^verbatim>\<open>generateFromUrl\<close>: the result or the error thrown, and
  the variables \<^verbatim>\<open>account\<close> and \<^verbatim>\<open>tempFile\<close> as they are when it is left.
\<close>

definition generateFromUrl_try ::
  "env \<Rightarrow> string \<Rightarrow> GenerateOptions \<Rightarrow> world
    \<Rightarrow> (error + GenerateResult) \<times> Account option \<times> nat option \<times> GenerateOptions \<times> world" where
  "generateFromUrl_try E originalUrl options w =
     (case followUrl E originalUrl of
        None \<Rightarrow> (Inl (GeneratorError INVALID_IMAGE_URL), None, None, options, w)
      | Some followResponse \<Rightarrow>
          (let url = responseUrl followResponse
           in if url = [] then (Inl (GeneratorError INVALID_IMAGE_URL), None, None, options, w)
              else
                (case findDuplicateFromUrl E url options URL w of
                   (Some urlDuplicate, w1) \<Rightarrow>
                     (Inr (no_result\<lparr>res_duplicate := Some urlDuplicate\<rparr>), None, None,
                      options, w1)
                 | (None, w1) \<Rightarrow>
                     if (case content_type followResponse of
                           None \<Rightarrow> True
                         | Some contentType \<Rightarrow>
                             contentType = [] \<or> take 5 contentType \<noteq> ''image'' \<or>
                             contentType \<notin> set ALLOWED_IMAGE_TYPES)
                     then (Inl (GeneratorError INVALID_IMAGE), None, None, options, w1)
                     else if (case content_length followResponse of
                                None \<Rightarrow> True
                              | Some size' \<Rightarrow> size' = 0 \<or> size' < 100 \<or> size' > MAX_IMAGE_SIZE)
                     then (Inl (GeneratorError INVALID_IMAGE), None, None, options, w1)
                     else
                       (let (tempFile, w2) = Temp_file w1
                        in case Temp_downloadImage E url tempFile w2 of
                             None \<Rightarrow>
                               (Inl (GeneratorError INVALID_IMAGE), None, Some tempFile,
                                options, w2)
                           | Some w3 \<Rightarrow>
                               (case validateAndGenerate E tempFile options URL w3 of
                                  (r, account, options', w4) \<Rightarrow>
                                    (r, account, Some tempFile, options', w4))))))"

text \<open>The \<^verbatim>\<open>catch\<close> and \<^verbatim>\<open>finally\<close> blocks of \<^verbatim>\<open>generateFromUrl\<close> and
  \<^verbatim>\<open>generateFromUpload\<close>.\<close>

definition catch_finally ::
  "env \<Rightarrow> (error + GenerateResult) \<times> Account option \<times> nat option \<times> GenerateOptions \<times> world
    \<Rightarrow> (error + GenerateResult) \<times> GenerateOptions \<times> world" where
  "catch_finally E t =
     (case t of
        (r, account, tempFile, options, w) \<Rightarrow>
          (let w1 = (case r of Inl e \<Rightarrow> snd (handleGenerateError E e account w) | Inr res \<Rightarrow> w);
               w2 = (case tempFile of Some f \<Rightarrow> Temp_remove f w1 | None \<Rightarrow> w1)
           in (r, options, w2)))"

definition generateFromUrl ::
  "env \<Rightarrow> string \<Rightarrow> GenerateOptions \<Rightarrow> world \<Rightarrow> (error + GenerateResult) \<times> GenerateOptions \<times> world"
  where
  "generateFromUrl E originalUrl options w = catch_finally E (generateFromUrl_try E originalUrl options w)"

definition generateFromUpload_try ::
  "env \<Rightarrow> UploadedFile \<Rightarrow> GenerateOptions \<Rightarrow> world
    \<Rightarrow> (error + GenerateResult) \<times> Account option \<times> nat option \<times> GenerateOptions \<times> world" where
  "generateFromUpload_try E file options w =
     (let (tempFile, w1) = Temp_file w
      in case Temp_copyUploadedImage file tempFile w1 of
           None \<Rightarrow> (Inl (GeneratorError INVALID_IMAGE), None, Some tempFile, options, w1)
         | Some w2 \<Rightarrow>
             (case validateAndGenerate E tempFile options UPLOAD w2 of
                (r, account, options', w3) \<Rightarrow> (r, account, Some tempFile, options', w3)))"

definition generateFromUpload ::
  "env \<Rightarrow> UploadedFile \<Rightarrow> GenerateOptions \<Rightarrow> world
    \<Rightarrow> (error + GenerateResult) \<times> GenerateOptions \<times> world" where
  "generateFromUpload E file options w = catch_finally E (generateFromUpload_try E file options w)"

text \<open>\<^verbatim>\<open>generateFromUser\<close>: no account is used, no \<^verbatim>\<open>try\<close> block.\<close>

definition generateFromUser ::
  "env \<Rightarrow> string \<Rightarrow> GenerateOptions \<Rightarrow> world \<Rightarrow> (error + GenerateResult) \<times> world" where
  "generateFromUser E uuid options w =
     (case longAndShortUuid E uuid of
        None \<Rightarrow> (Inl OtherError, w)
      | Some (long, short) \<Rightarrow>
          (case findDuplicateFromUuid long options USER w of
             (Some uuidDuplicate, w1) \<Rightarrow> (Inr (no_result\<lparr>res_duplicate := Some uuidDuplicate\<rparr>), w1)
           | (None, w1) \<Rightarrow>
               (case getSkinData E short of
                  Inl e \<Rightarrow> (Inl e, w1)
                | Inr data \<Rightarrow>
                    (case texture_url data of
                       None \<Rightarrow> (Inl OtherError, w1)
                     | Some u \<Rightarrow>
                         (case getMojangHash E u w1 of
                            (Inl e, w2) \<Rightarrow> (Inl e, w2)
                          | (Inr mojangHash, w2) \<Rightarrow>
                              (Inr \<lparr>res_duplicate = None, res_data = Some data,
                                    res_meta = Some \<lparr>meta_uuid = long,
                                      meta_imageHash = Some mojangHash,
                                      meta_mojangHash = mojangHash\<rparr>,
                                    res_account = None\<rparr>, w2))))))"

text \<open>The three entry points: \<^verbatim>\<open>generateFromUrlAndSave\<close>,
  \<^verbatim>\<open>generateFromUploadAndSave\<close>, \<^verbatim>\<open>generateFromUserAndSave\<close>.\<close>

definition andSave ::
  "env \<Rightarrow> ClientInfo \<Rightarrow> GenerateType \<Rightarrow> (error + GenerateResult) \<times> GenerateOptions \<times> world
    \<Rightarrow> (error + Skin) \<times> world" where
  "andSave E client type t =
     (case t of
        (Inl e, options, w) \<Rightarrow> (Inl e, w)
      | (Inr data, options, w) \<Rightarrow>
          (case getDuplicateOrSaved E data options client type (start_ms E) w of
             (Inl e, w1) \<Rightarrow> (Inl e, w1)
           | (Inr doc, w1) \<Rightarrow> (Inr doc, emit (DurationMetric type) w1)))"

definition generateFromUrlAndSave ::
  "env \<Rightarrow> string \<Rightarrow> GenerateOptions \<Rightarrow> ClientInfo \<Rightarrow> world \<Rightarrow> (error + Skin) \<times> world" where
  "generateFromUrlAndSave E url options client w =
     andSave E client URL (generateFromUrl E url options w)"

definition generateFromUploadAndSave ::
  "env \<Rightarrow> UploadedFile \<Rightarrow> GenerateOptions \<Rightarrow> ClientInfo \<Rightarrow> world \<Rightarrow> (error + Skin) \<times> world"
  where
  "generateFromUploadAndSave E file options client w =
     andSave E client UPLOAD (generateFromUpload E file options w)"

definition generateFromUserAndSave ::
  "env \<Rightarrow> string \<Rightarrow> GenerateOptions \<Rightarrow> ClientInfo \<Rightarrow> world \<Rightarrow> (error + Skin) \<times> world" where
  "generateFromUserAndSave E user options client w =
     (case generateFromUser E user options w of
        (r, w1) \<Rightarrow> andSave E client USER (r, options, w1))"

section \<open>Authentication (\<^verbatim>\<open>generator/authentication.js\<close>)\<close>

text \<open>
  How a request of the \<^verbatim>\<open>request\<close> library ends: with \<^verbatim>\<open>err\<close> set, or with a
  response, its status code and its JSON body (\<open>None\<close>: no body). A body may carry
  \<^verbatim>\<open>error\<close> and \<^verbatim>\<open>accessToken\<close>.
\<close>

record auth_body =
  body_error :: "string option"
  body_accessToken :: "string option"

datatype http = Failed | Response nat "auth_body option"

text \<open>The upstream authentication service as one call of \<^verbatim>\<open>authenticate\<close> meets it,
  the \<^verbatim>\<open>uuid()\<close> it would draw, and whether the stored password decrypts.\<close>

record upstream =
  validate_response :: http
  refresh_response :: http
  authenticate_response :: http
  uuid_v4 :: string
  password_decrypts :: bool

datatype auth_call = POST_validate | POST_refresh | POST_authenticate

text \<open>What becomes of the callback \<^verbatim>\<open>cb\<close>: called with an error, called with the
  account, or never called (an exception escapes).\<close>

datatype callback = Cb_error | Cb_account Account | Cb_never

text \<open>\<^verbatim>\<open>loginCallback\<close>: the requests made, the callback, the world with what was
  saved.\<close>

definition loginCallback ::
  "upstream \<Rightarrow> Account \<Rightarrow> world \<Rightarrow> auth_call list \<times> callback \<times> world" where
  "loginCallback U account w =
     (let account1 = (if \<not> truthy (clientToken account)
                      then account\<lparr>clientToken := Some (uuid_v4 U)\<rparr> else account)
      in if \<not> password_decrypts U then ([], Cb_never, w)
         else
           (case authenticate_response U of
              Failed \<Rightarrow> ([POST_authenticate], Cb_error, w)
            | Response status None \<Rightarrow> ([POST_authenticate], Cb_never, w)
            | Response status (Some body) \<Rightarrow>
                if truthy (body_error body) then ([POST_authenticate], Cb_error, w)
                else
                  (let account2 = account1\<lparr>accessToken := body_accessToken body\<rparr>
                   in ([POST_authenticate], Cb_account account2, save_account account2 w))))"

text \<open>The inner function \<^verbatim>\<open>refresh\<close>.\<close>

definition refresh :: "upstream \<Rightarrow> Account \<Rightarrow> world \<Rightarrow> auth_call list \<times> callback \<times> world" where
  "refresh U account w =
     (case refresh_response U of
        Response status None \<Rightarrow> ([POST_refresh], Cb_never, w)
      | Response status (Some body) \<Rightarrow>
          if truthy (body_error body)
          then
            (let account1 = account\<lparr>accessToken := None\<rparr>
             in case loginCallback U account1 (save_account account1 w) of
                  (calls, cb, w') \<Rightarrow> (POST_refresh # calls, cb, w'))
          else
            (let account1 = account\<lparr>accessToken := body_accessToken body\<rparr>
             in ([POST_refresh], Cb_account account1, save_account account1 w))
      | Failed \<Rightarrow>
          (let account1 = account\<lparr>accessToken := None\<rparr>
           in case loginCallback U account1 (save_account account1 w) of
                (calls, cb, w') \<Rightarrow> (POST_refresh # calls, cb, w')))"

text \<open>\<^verbatim>\<open>module.exports.authenticate\<close>.\<close>

definition authenticate :: "upstream \<Rightarrow> Account \<Rightarrow> world \<Rightarrow> auth_call list \<times> callback \<times> world"
  where
  "authenticate U account w =
     (if truthy (clientToken account) \<and> truthy (accessToken account)
      then
        (case validate_response U of
           Failed \<Rightarrow>
             (case refresh U account w of (calls, cb, w') \<Rightarrow> (POST_validate # calls, cb, w'))
         | Response statusCode body \<Rightarrow>
             if statusCode < 200 \<or> statusCode > 230 \<or>
                (case body of None \<Rightarrow> False | Some b \<Rightarrow> truthy (body_error b))
             then
               (case refresh U account w of (calls, cb, w') \<Rightarrow> (POST_validate # calls, cb, w'))
             else ([POST_validate], Cb_account account, w))
      else loginCallback U account w)"

section \<open>Properties as the specification words them\<close>

text \<open>A draw whose encoded id a skin of the catalog already has.\<close>

definition taken :: "env \<Rightarrow> world \<Rightarrow> nat \<Rightarrow> bool" where
  "taken E w j \<longleftrightarrow> encode E (random32BitNumber E j) \<in> skin_id ` set (skins w)"

text \<open>The alpha channel of the pixel \<open>(x, y)\<close>.\<close>

definition alpha :: "Bitmap \<Rightarrow> nat \<Rightarrow> nat \<Rightarrow> 8 word option" where
  "alpha img x y = data_at img (pixel_idx img x y + 3)"

text \<open>
  The eligibility predicate of the specification, read on a stored account: a bound on a
  field holds when the account has a value for the field and the value is below the
  bound.
\<close>

definition has_below :: "int option \<Rightarrow> int \<Rightarrow> bool" where
  "has_below field bound = (case field of Some v \<Rightarrow> v < bound | None \<Rightarrow> False)"

definition eligible_spec :: "env \<Rightarrow> int \<Rightarrow> nat list \<Rightarrow> Account \<Rightarrow> bool" where
  "eligible_spec E now locked a \<longleftrightarrow>
     enabled a \<and>
     has_below (errorCounter a) (error_threshold E) \<and>
     has_below (timeAdded a) (now - 60) \<and>
     has_below (lastUsed a) (now - 100) \<and>
     has_below (lastSelected a) (now - 50) \<and>
     has_below (forcedTimeoutAt a) (now - 500) \<and>
     (requestServer a = None \<or> requestServer a = Some ''default'' \<or>
        requestServer a = Some (server E)) \<and>
     acc_id a \<notin> set locked"

text \<open>The events a run added to the log.\<close>

definition new_events :: "world \<Rightarrow> world \<Rightarrow> event list" where
  "new_events w w' = drop (length (events w)) (events w')"

text \<open>The events that tell of a duplicate found, and of an account used.\<close>

fun is_duplicate_metric :: "event \<Rightarrow> bool" where
  "is_duplicate_metric (DuplicateMetric source type) = True"
| "is_duplicate_metric e = False"

fun is_generation_event :: "event \<Rightarrow> bool" where
  "is_generation_event (AccountLocked i) = True"
| "is_generation_event (SkinChangeRequest i) = True"
| "is_generation_event e = False"

text \<open>The log \<open>evs'\<close> is the log \<open>evs\<close> with events added that all satisfy \<open>P\<close>.\<close>

definition grows :: "(event \<Rightarrow> bool) \<Rightarrow> event list \<Rightarrow> event list \<Rightarrow> bool" where
  "grows P evs evs' \<longleftrightarrow>
     take (length evs) evs' = evs \<and> list_all P (drop (length evs) evs')"

text \<open>A skin with its duplicate counter incremented.\<close>

definition counted :: "Skin \<Rightarrow> Skin" where
  "counted s = s\<lparr>duplicate := duplicate s + 1\<rparr>"

text \<open>
  Three relations between the world before and after a step: the step touched neither
  collection nor the locks and logged neither a duplicate nor an account; the step
  counted a duplicate of the skin \<open>s\<close> and did nothing else to the collections and the
  locks, and logged no account; the step logged no duplicate.
\<close>

definition silent :: "world \<Rightarrow> world \<Rightarrow> bool" where
  "silent w w' \<longleftrightarrow>
     skins w' = skins w \<and> accounts w' = accounts w \<and> lockedAccounts w' = lockedAccounts w \<and>
     grows (\<lambda>e. \<not> is_duplicate_metric e \<and> \<not> is_generation_event e) (events w) (events w')"

definition hit :: "Skin \<Rightarrow> world \<Rightarrow> world \<Rightarrow> bool" where
  "hit s w w' \<longleftrightarrow>
     s \<in> set (skins w) \<and>
     skins w' = map (\<lambda>x. if skin_oid x = skin_oid s then counted s else x) (skins w) \<and>
     accounts w' = accounts w \<and> lockedAccounts w' = lockedAccounts w \<and>
     grows (\<lambda>e. \<not> is_generation_event e) (events w) (events w')"

definition nodup :: "world \<Rightarrow> world \<Rightarrow> bool" where
  "nodup w w' \<longleftrightarrow> grows (\<lambda>e. \<not> is_duplicate_metric e) (events w) (events w')"

text \<open>The temporary file of a \<^verbatim>\<open>try\<close> block, if there is one, is the only one added.\<close>

definition only_temp :: "world \<Rightarrow> nat option \<Rightarrow> world \<Rightarrow> bool" where
  "only_temp w tempFile w' \<longleftrightarrow>
     (case tempFile of
        None \<Rightarrow> tempFiles w' = tempFiles w
      | Some h \<Rightarrow> h \<notin> fst ` set (tempFiles w) \<and>
                 filter (\<lambda>(k, v). k \<noteq> h) (tempFiles w') = tempFiles w)"

text \<open>
  In a list of events, every temporary file that was created was removed; and the same
  of the events of a step, but for the file \<open>h\<close>, which may still exist.
\<close>

fun is_temp_created :: "event \<Rightarrow> bool" where
  "is_temp_created (TempCreated h) = True"
| "is_temp_created e = False"

definition released :: "event list \<Rightarrow> bool" where
  "released evs \<longleftrightarrow>
     list_all (\<lambda>e. case e of TempCreated h \<Rightarrow> TempRemoved h \<in> set evs | e' \<Rightarrow> True) evs"

definition settles :: "world \<Rightarrow> world \<Rightarrow> bool" where
  "settles w w' \<longleftrightarrow>
     take (length (events w)) (events w') = events w \<and> released (new_events w w')"

definition opens :: "nat \<Rightarrow> world \<Rightarrow> world \<Rightarrow> bool" where
  "opens h w w' \<longleftrightarrow>
     take (length (events w)) (events w') = events w \<and>
     released (new_events w w' @ [TempRemoved h])"

section \<open>Concrete inputs\<close>

definition env0 :: env where
  "env0 = \<lparr>server = ''s1'', errorThreshold = None, encode = unat,
     random32BitNumber = (\<lambda>k. 7), url_host = (\<lambda>u. ''imgur.com''),
     head_request = (\<lambda>u. None), mineskinUrlMatch = (\<lambda>u. None),
     textureUrlMatch = (\<lambda>u. None), download = (\<lambda>u. None),
     Authentication_authenticate = Inr, skinChange = RejectedWithResponse,
     caching_getSkinData = (\<lambda>u. Inr None), json_decode = (\<lambda>v. Inr None),
     stripUuid = (\<lambda>u. u), longAndShortUuid = (\<lambda>u. Some (u, u)),
     getHashFromMojangTextureUrl = (\<lambda>u. None), new_uuid = ''0000'',
     time_selected = 1000, time_used = 1001, time_error = 1002, time_saved = 1003,
     start_ms = 999000, now_ms = 1003000\<rparr>"

definition hash0 :: string where
  "hash0 = ''0123456789abcdef0123456789abcdef''"

definition uuid0 :: string where
  "uuid0 = ''01234567-89ab-cdef-0123-456789abcdef''"

definition skin0 :: Skin where
  "skin0 = \<lparr>skin_oid = 1, skin_id = 7, skin_hash = Some hash0,
     skin_uuid = Some uuid0, skin_name = ''slim'',
     skin_model = SLIM, skin_visibility = 0, skin_value = ''v'', skin_signature = ''s'',
     skin_url = ''http://textures.minecraft.net/texture/ab'',
     skin_minecraftTextureHash = Some ''ab'', skin_textureHash = None, skin_time = 10,
     skin_generateDuration = 5, skin_account = Some 1, skin_type = UPLOAD, skin_via = ''api'',
     skin_ua = ''ua'', duplicate = 0, views = 3\<rparr>"

definition world0 :: world where
  "world0 = \<lparr>skins = [skin0], accounts = [], lockedAccounts = [], tempFiles = [], events = []\<rparr>"

definition world_empty :: world where
  "world_empty = \<lparr>skins = [], accounts = [], lockedAccounts = [], tempFiles = [], events = []\<rparr>"

definition options0 :: GenerateOptions where
  "options0 = \<lparr>opt_name = ''slim'', opt_model = CLASSIC, opt_visibility = 0\<rparr>"

definition client0 :: ClientInfo where
  "client0 = \<lparr>via = ''api'', userAgent = ''ua''\<rparr>"

definition data0 :: SkinData where
  "data0 = \<lparr>data_value = ''v'', data_signature = ''s'',
     decodedValue = Some \<lparr>textures = Some \<lparr>SKIN = Some \<lparr>tex_url = ''http://t/1''\<rparr>, CAPE = None\<rparr>\<rparr>\<rparr>"

definition result0 :: GenerateResult where
  "result0 = \<lparr>res_duplicate = None, res_data = Some data0,
     res_meta = Some \<lparr>meta_uuid = ''u'', meta_imageHash = Some ''h'', meta_mojangHash = ''m''\<rparr>,
     res_account = None\<rparr>"

text \<open>A 64x64 image, opaque everywhere but at the pixel (54, 20), whose alpha is 128.\<close>

definition bitmap_one :: Bitmap where
  "bitmap_one = \<lparr>bm_width = 64, bm_height = 64, bm_data = (replicate 16384 255)[5339 := 128]\<rparr>"

text \<open>A 64x64 image that is transparent everywhere.\<close>

definition bitmap_clear :: Bitmap where
  "bitmap_clear = \<lparr>bm_width = 64, bm_height = 64, bm_data = replicate 16384 0\<rparr>"

text \<open>An account that was never used, and one that was.\<close>

definition account_new :: Account where
  "account_new = \<lparr>acc_oid = 1, acc_id = 1, acc_uuid = ''a1'', enabled = True,
     requestServer = None, lastRequestServer = None, lastSelected = None, lastUsed = None,
     timeAdded = Some 100, forcedTimeoutAt = None, errorCounter = Some 0,
     successCounter = Some 0, totalErrorCounter = Some 0, totalSuccessCounter = Some 0,
     sameTextureCounter = None, accessToken = None, clientToken = None\<rparr>"

definition account_used :: Account where
  "account_used = \<lparr>acc_oid = 2, acc_id = 2, acc_uuid = ''a2'', enabled = True,
     requestServer = Some ''s1'', lastRequestServer = None, lastSelected = Some 90,
     lastUsed = Some 100, timeAdded = Some 50, forcedTimeoutAt = Some 0,
     errorCounter = Some 2, successCounter = Some 3, totalErrorCounter = Some 4,
     totalSuccessCounter = Some 5, sameTextureCounter = Some 0,
     accessToken = Some ''token'', clientToken = Some ''client''\<rparr>"

definition world_pool :: world where
  "world_pool = \<lparr>skins = [skin0], accounts = [account_used, account_new], lockedAccounts = [],
     tempFiles = [], events = []\<rparr>"

definition upstream_error_body :: upstream where
  "upstream_error_body = \<lparr>
     validate_response = Response 200 (Some \<lparr>body_error = Some ''ForbiddenOperationException'',
                                            body_accessToken = None\<rparr>),
     refresh_response = Response 200 (Some \<lparr>body_error = None, body_accessToken = Some ''fresh''\<rparr>),
     authenticate_response = Failed,
     uuid_v4 = ''uuid'', password_decrypts = True\<rparr>"

definition upstream_valid :: upstream where
  "upstream_valid = \<lparr>
     validate_response = Response 204 None,
     refresh_response = Failed,
     authenticate_response = Response 200 (Some \<lparr>body_error = None, body_accessToken = Some ''login''\<rparr>),
     uuid_v4 = ''uuid'', password_decrypts = True\<rparr>"

definition world_accounts :: world where
  "world_accounts = \<lparr>skins = [], accounts = [account_used], lockedAccounts = [],
     tempFiles = [], events = []\<rparr>"

definition content0 :: FileContent where
  "content0 = \<lparr>byteLength = 4096, imageSize = Some (64, 64), fileType_mime = Some ''image/png'',
     jimp = Some bitmap_clear, imageHash = hash0\<rparr>"

definition upload0 :: UploadedFile where
  "upload0 = \<lparr>upload_data = content0, upload_mv_fails = False\<rparr>"

definition options_unknown :: GenerateOptions where
  "options_unknown = \<lparr>opt_name = ''slim'', opt_model = UNKNOWN, opt_visibility = 0\<rparr>"

definition validation0 :: TempFileValidationResult where
  "validation0 = \<lparr>val_duplicate = None, val_buffer = Some content0, val_size = Some 4096,
     val_dimensions = Some (64, 64), val_fileType = Some ''image/png'', val_hash = Some hash0\<rparr>"

section \<open>Skin ids: the retries of \<^verbatim>\<open>makeRandomSkinId\<close>\<close>

declare getLockedAccounts_def [simp] lockSelectedAccount_def [simp]

lemma findOne_None_iff: "findOne p xs = None \<longleftrightarrow> (\<forall>x\<in>set xs. \<not> p x)"
  by (auto simp: findOne_def find_None_iff)

lemma findOne_Some: "findOne p xs = Some x \<Longrightarrow> x \<in> set xs \<and> p x"
  by (auto simp: findOne_def find_Some_iff)

lemma findOne_id_taken:
  "findOne (\<lambda>s. skin_id s = encode E (random32BitNumber E k)) (skins w) = None
     \<longleftrightarrow> \<not> taken E w k"
  by (force simp: findOne_None_iff taken_def)

lemma makeRandomSkinId_unfold:
  "makeRandomSkinId E w k tryN =
     (if tryN > MAX_ID_TRIES then (Inl (GeneratorError FAILED_TO_CREATE_ID), k)
      else if taken E w k then makeRandomSkinId E w (Suc k) (tryN + 1)
      else (Inr (encode E (random32BitNumber E k)), Suc k))"
  by (subst makeRandomSkinId.simps)
    (simp add: Let_def findOne_id_taken del: makeRandomSkinId.simps not_None_eq)

declare makeRandomSkinId.simps [simp del]

lemma makeRandomSkinId_draws:
  "tryN \<le> Suc MAX_ID_TRIES \<Longrightarrow> makeRandomSkinId E w k tryN = (r, n) \<Longrightarrow>
     k \<le> n \<and> n + tryN \<le> k + Suc MAX_ID_TRIES \<and> (\<forall>j. k \<le> j \<and> Suc j < n \<longrightarrow> taken E w j)
     \<and> (case r of
          Inr i \<Rightarrow> k < n \<and> i = encode E (random32BitNumber E (n - 1)) \<and> \<not> taken E w (n - 1)
        | Inl e \<Rightarrow> e = GeneratorError FAILED_TO_CREATE_ID \<and> n + tryN = k + Suc MAX_ID_TRIES
                   \<and> (\<forall>j. k \<le> j \<and> j < n \<longrightarrow> taken E w j))"
proof (induction E w k tryN arbitrary: r n rule: makeRandomSkinId.induct)
  case (1 E w k tryN)
  show ?case
  proof (cases "tryN > MAX_ID_TRIES")
    case True
    with "1.prems" show ?thesis by (subst (asm) makeRandomSkinId_unfold) auto
  next
    case False
    show ?thesis
    proof (cases "taken E w k")
      case True
      with False "1.prems" have rec: "makeRandomSkinId E w (Suc k) (tryN + 1) = (r, n)"
        by (subst (asm) makeRandomSkinId_unfold) simp
      have ex: "findOne (\<lambda>s. skin_id s = encode E (random32BitNumber E k)) (skins w) \<noteq> None"
        using True by (simp add: findOne_id_taken del: not_None_eq)
      from False have le: "tryN + 1 \<le> Suc MAX_ID_TRIES" by simp
      note IH = "1.IH" [OF False refl refl refl ex le rec]
      have step: "\<And>j. k \<le> j \<Longrightarrow> j = k \<or> Suc k \<le> j" by arith
      from IH have b: "k \<le> n" "n + tryN \<le> k + Suc MAX_ID_TRIES" by simp_all
      from IH True step have t1: "\<forall>j. k \<le> j \<and> Suc j < n \<longrightarrow> taken E w j" by blast
      show ?thesis
      proof (cases r)
        case (Inl e)
        with IH have e: "e = GeneratorError FAILED_TO_CREATE_ID"
          and n: "n + tryN = k + Suc MAX_ID_TRIES"
          and t: "\<forall>j. Suc k \<le> j \<and> j < n \<longrightarrow> taken E w j" by simp_all
        from t True step have "\<forall>j. k \<le> j \<and> j < n \<longrightarrow> taken E w j" by blast
        with Inl e n b t1 show ?thesis by simp
      next
        case (Inr i)
        with IH have "Suc k < n" "i = encode E (random32BitNumber E (n - 1))"
          "\<not> taken E w (n - 1)"
          by simp_all
        with Inr b t1 show ?thesis by simp
      qed
    next
      case nt: False
      with False "1.prems" have "r = Inr (encode E (random32BitNumber E k))" "n = Suc k"
        by (subst (asm) makeRandomSkinId_unfold, simp)+
      with nt False show ?thesis by auto
    qed
  qed
qed

lemma makeRandomSkinId_all_taken:
  "tryN \<le> Suc MAX_ID_TRIES \<Longrightarrow>
   (\<forall>j. k \<le> j \<and> j + tryN \<le> k + MAX_ID_TRIES \<longrightarrow> taken E w j) \<Longrightarrow>
     makeRandomSkinId E w k tryN
       = (Inl (GeneratorError FAILED_TO_CREATE_ID), k + Suc MAX_ID_TRIES - tryN)"
proof (induction E w k tryN rule: makeRandomSkinId.induct)
  case (1 E w k tryN)
  show ?case
  proof (cases "tryN > MAX_ID_TRIES")
    case True
    with "1.prems" show ?thesis by (subst makeRandomSkinId_unfold) auto
  next
    case False
    with "1.prems" have tk: "taken E w k" by auto
    have ex: "findOne (\<lambda>s. skin_id s = encode E (random32BitNumber E k)) (skins w) \<noteq> None"
      using tk by (simp add: findOne_id_taken del: not_None_eq)
    from False have le: "tryN + 1 \<le> Suc MAX_ID_TRIES" by simp
    have "makeRandomSkinId E w (Suc k) (tryN + 1) =
        (Inl (GeneratorError FAILED_TO_CREATE_ID), Suc k + Suc MAX_ID_TRIES - (tryN + 1))"
      using "1.prems" by (intro "1.IH" [OF False refl refl refl ex le]) auto
    with False tk show ?thesis by (subst makeRandomSkinId_unfold) simp
  qed
qed

text \<open>
  C3. \<^verbatim>\<open>makeNewSkinId\<close> draws a 32-bit random number, encodes it with
  \<^verbatim>\<open>optimus.encode\<close> and looks the id up in the catalog. It draws again only after a
  collision, and at most \<open>MAX_ID_TRIES = 10\<close> times after the first draw (so \<open>n\<close>, the
  number of draws, is at most 11, and every draw but the last collided). It returns the
  first encoded id no skin has. When all the draws collide it raises
  \<^verbatim>\<open>FAILED_TO_CREATE_ID\<close> after 10 retries, and \<^verbatim>\<open>saveSkin\<close>, which asks for the id
  first, then raises the same error and leaves the world as it was: nothing is inserted.
\<close>

theorem makeNewSkinId_retries:
  "makeNewSkinId E w = (r, n) \<Longrightarrow>
     MAX_ID_TRIES = 10 \<and> 0 < n \<and> n - 1 \<le> MAX_ID_TRIES \<and>
     (\<forall>j. Suc j < n \<longrightarrow> taken E w j) \<and>
     (case r of
        Inr i \<Rightarrow> i = encode E (random32BitNumber E (n - 1)) \<and> \<not> taken E w (n - 1)
      | Inl e \<Rightarrow> e = GeneratorError FAILED_TO_CREATE_ID \<and> n - 1 = MAX_ID_TRIES
                 \<and> taken E w (n - 1)) \<and>
     ((\<forall>j. j \<le> MAX_ID_TRIES \<longrightarrow> taken E w j) \<longrightarrow> r = Inl (GeneratorError FAILED_TO_CREATE_ID)) \<and>
     (r = Inl (GeneratorError FAILED_TO_CREATE_ID) \<longrightarrow>
        saveSkin E result options client type start w
          = (Inl (GeneratorError FAILED_TO_CREATE_ID), w))"
proof -
  assume run: "makeNewSkinId E w = (r, n)"
  then have m: "makeRandomSkinId E w 0 0 = (r, n)" by (simp add: makeNewSkinId_def)
  have "(0::nat) \<le> Suc MAX_ID_TRIES" by simp
  note d = makeRandomSkinId_draws [OF this m]
  from d have d1: "n \<le> Suc MAX_ID_TRIES" by simp
  from d have d2: "case r of Inr i \<Rightarrow> 0 < n | Inl e \<Rightarrow> n = Suc MAX_ID_TRIES"
    by (cases r) simp_all
  from d2 have "0 < n" by (cases r) simp_all
  moreover from d1 have "n - 1 \<le> MAX_ID_TRIES" by arith
  ultimately have n: "0 < n" "n - 1 \<le> MAX_ID_TRIES" .
  from d have t: "\<forall>j. Suc j < n \<longrightarrow> taken E w j" by simp
  from d have c: "case r of
        Inr i \<Rightarrow> i = encode E (random32BitNumber E (n - 1)) \<and> \<not> taken E w (n - 1)
      | Inl e \<Rightarrow> e = GeneratorError FAILED_TO_CREATE_ID \<and> n - 1 = MAX_ID_TRIES
                 \<and> taken E w (n - 1)"
    by (cases r) auto
  have a: "(\<forall>j. j \<le> MAX_ID_TRIES \<longrightarrow> taken E w j)
      \<longrightarrow> r = Inl (GeneratorError FAILED_TO_CREATE_ID)"
  proof
    assume "\<forall>j. j \<le> MAX_ID_TRIES \<longrightarrow> taken E w j"
    then have "makeRandomSkinId E w 0 0
        = (Inl (GeneratorError FAILED_TO_CREATE_ID), 0 + Suc MAX_ID_TRIES - 0)"
      by (intro makeRandomSkinId_all_taken) auto
    with m show "r = Inl (GeneratorError FAILED_TO_CREATE_ID)" by simp
  qed
  have s: "r = Inl (GeneratorError FAILED_TO_CREATE_ID) \<longrightarrow>
        saveSkin E result options client type start w
          = (Inl (GeneratorError FAILED_TO_CREATE_ID), w)"
    using run by (simp add: saveSkin_def)
  from n t c a s show ?thesis by (simp add: MAX_ID_TRIES_def)
qed

theorem makeNewSkinId_retries_witness:
  "makeNewSkinId env0 world0 = (Inl (GeneratorError FAILED_TO_CREATE_ID), 11) \<and>
   taken env0 world0 10 \<and>
   saveSkin env0 no_result options0 client0 UPLOAD 0 world0
     = (Inl (GeneratorError FAILED_TO_CREATE_ID), world0)"
proof -
  have tk: "\<And>j. taken env0 world0 j"
    by (simp add: taken_def env0_def world0_def skin0_def)
  obtain r n where run: "makeNewSkinId env0 world0 = (r, n)"
    by (cases "makeNewSkinId env0 world0")
  note th = makeNewSkinId_retries [OF run, of no_result options0 client0 UPLOAD 0]
  from th tk have r: "r = Inl (GeneratorError FAILED_TO_CREATE_ID)" by simp
  with th have "n - 1 = 10" "0 < n" by simp_all
  then have "n = 11" by arith
  with r run th tk show ?thesis by simp
qed

text \<open>
  C10. A skin that \<^verbatim>\<open>saveSkin\<close> persists is added to the catalog with its duplicate
  counter and its view counter at 0, whatever the result, the options, the client and the
  type of the request are.
\<close>

theorem saveSkin_counters_zero:
  "saveSkin E result options client type start w = (Inr s, w') \<Longrightarrow>
     duplicate s = 0 \<and> views s = 0 \<and> skins w' = skins w @ [s]"
  by (auto simp: saveSkin_def insert_skin_def Let_def split: sum.splits option.splits)

theorem saveSkin_counters_zero_witness:
  "\<exists>s. fst (saveSkin env0 result0 options0 client0 UPLOAD 0 world_empty) = Inr s \<and>
     skin_id s = 7 \<and> duplicate s = 0 \<and> views s = 0 \<and>
     skins (snd (saveSkin env0 result0 options0 client0 UPLOAD 0 world_empty)) = [s]"
proof -
  have id: "makeNewSkinId env0 world_empty = (Inr 7, 1)"
    by (simp add: makeNewSkinId_def makeRandomSkinId_unfold taken_def MAX_ID_TRIES_def
        env0_def world_empty_def)
  have "\<exists>s w'. saveSkin env0 result0 options0 client0 UPLOAD 0 world_empty = (Inr s, w')
      \<and> skin_id s = 7"
    by (simp add: saveSkin_def id result0_def data0_def texture_url_def insert_skin_def Let_def)
  then obtain s w'
    where run: "saveSkin env0 result0 options0 client0 UPLOAD 0 world_empty = (Inr s, w')"
    and i: "skin_id s = 7" by blast
  from saveSkin_counters_zero [OF run] run i show ?thesis by (simp add: world_empty_def)
qed


section \<open>Variant detection\<close>

lemma set_scan: "set (scan x y w h) = {x..<x + w} \<times> {y..<y + h}"
  by (auto simp: scan_def)

lemma fold_allTransparent:
  "fold (\<lambda>(x, y) allTransparent. if P x y then False else allTransparent) ps b
     \<longleftrightarrow> b \<and> (\<forall>(x, y)\<in>set ps. \<not> P x y)"
  by (induction ps arbitrary: b) (auto split: if_splits)

lemma validateImageData_64:
  "bm_width img = 64 \<Longrightarrow> bm_height img = 64 \<Longrightarrow>
     validateImageData (Some img) =
       Inr (if \<exists>x\<in>{54..<56}. \<exists>y\<in>{20..<32}. alpha img x y = Some 255 then CLASSIC else SLIM)"
  by (auto simp: validateImageData_def Let_def fold_allTransparent set_scan alpha_def)

lemma alpha_one_54_20: "alpha bitmap_one 54 20 = Some 128"
  by (simp add: alpha_def data_at_def pixel_idx_def bitmap_one_def)

lemma alpha_one_55_20: "alpha bitmap_one 55 20 = Some 255"
  by (simp add: alpha_def data_at_def pixel_idx_def bitmap_one_def)

lemma alpha_clear: "alpha bitmap_clear x y \<noteq> Some 255"
  by (simp add: alpha_def data_at_def bitmap_clear_def)

lemma validateImageData_clear: "validateImageData (Some bitmap_clear) = Inr SLIM"
  by (subst validateImageData_64) (simp_all add: alpha_clear, simp_all add: bitmap_clear_def)

text \<open>
  C1, as the code has it. For a decoded image of 64x64 pixels, \<^verbatim>\<open>validateImageData\<close>
  returns classic as soon as one pixel of the rectangle \<open>x \<in> [54, 56)\<close>,
  \<open>y \<in> [20, 32)\<close> has alpha 255, and slim when no pixel of the rectangle has alpha 255
  (the variable \<^verbatim>\<open>allTransparent\<close> stays true). When \<^verbatim>\<open>options.model\<close> is unknown,
  \<^verbatim>\<open>validateTempFile\<close> writes the detected model into the options.
\<close>

theorem validateImageData_variant:
  "bm_width img = 64 \<Longrightarrow> bm_height img = 64 \<Longrightarrow>
     ((\<exists>x\<in>{54..<56}. \<exists>y\<in>{20..<32}. alpha img x y = Some 255)
        \<longrightarrow> validateImageData (Some img) = Inr CLASSIC) \<and>
     ((\<forall>x\<in>{54..<56}. \<forall>y\<in>{20..<32}. alpha img x y \<noteq> Some 255)
        \<longrightarrow> validateImageData (Some img) = Inr SLIM) \<and>
     (jimp c = Some img \<longrightarrow> opt_model options = UNKNOWN \<longrightarrow> readFile f w = Some c \<longrightarrow>
        validateTempFile f options type w = (Inr v, options', w') \<longrightarrow>
        validateImageData (Some img) = Inr (opt_model options'))"
  apply (intro conjI impI)
    apply (simp add: validateImageData_64)
   apply (simp add: validateImageData_64)
  apply (auto simp: validateTempFile_def Let_def split: if_splits option.splits sum.splits prod.splits)
  done

theorem validateImageData_variant_witness:
  "validateImageData (Some bitmap_clear) = Inr SLIM \<and>
   validateImageData (Some bitmap_one) = Inr CLASSIC"
proof -
  have d: "bm_width bitmap_clear = 64" "bm_height bitmap_clear = 64"
    "bm_width bitmap_one = 64" "bm_height bitmap_one = 64"
    by (simp_all add: bitmap_clear_def bitmap_one_def)
  have c: "\<forall>x\<in>{54..<56}. \<forall>y\<in>{20..<32}. alpha bitmap_clear x y \<noteq> Some 255"
    by (simp add: alpha_clear)
  have o: "\<exists>x\<in>{54..<56}. \<exists>y\<in>{20..<32}. alpha bitmap_one x y = Some 255"
    using alpha_one_55_20 by (intro bexI [of _ 55] bexI [of _ 20]) simp_all
  from validateImageData_variant [OF d(1,2)] c
  have "validateImageData (Some bitmap_clear) = Inr SLIM" by blast
  moreover from validateImageData_variant [OF d(3,4)] o
  have "validateImageData (Some bitmap_one) = Inr CLASSIC" by blast
  ultimately show ?thesis by simp
qed

text \<open>
  C1 as it is stated fails: the image \<open>bitmap_one\<close> is 64x64, its pixel (54, 20) lies in
  the rectangle and is not fully opaque (alpha 128), and the model detected is classic,
  not slim.
\<close>

theorem validateImageData_counterexample:
  "bm_width bitmap_one = 64 \<and> bm_height bitmap_one = 64 \<and>
   alpha bitmap_one 54 20 = Some 128 \<and> validateImageData (Some bitmap_one) = Inr CLASSIC"
proof -
  have "\<exists>x\<in>{54..<56}. \<exists>y\<in>{20..<32}. alpha bitmap_one x y = Some 255"
    using alpha_one_55_20 by (intro bexI [of _ 55] bexI [of _ 20]) simp_all
  then have "validateImageData (Some bitmap_one) = Inr CLASSIC"
    by (subst validateImageData_64) (simp_all add: bitmap_one_def)
  with alpha_one_54_20 show ?thesis by (simp add: bitmap_one_def)
qed

section \<open>The filter of the hash and uuid probes\<close>

text \<open>
  C2, at a failing input. The catalog holds one skin, named "slim", of the model slim. A
  request named "slim" for the model classic ("steve") finds it by its image hash and by
  its uuid: both queries compare the stored model with \<^verbatim>\<open>options.name\<close>, not with
  \<^verbatim>\<open>options.model\<close>, so the variant of the request is not part of the filter.
\<close>

theorem findDuplicate_other_variant:
  "opt_model options0 = CLASSIC \<and> skin_model skin0 = SLIM \<and>
   fst (findDuplicateFromImageHash hash0 options0 UPLOAD world0)
     = Some (skin0\<lparr>duplicate := 1\<rparr>) \<and>
   fst (findDuplicateFromUuid uuid0 options0 USER world0)
     = Some (skin0\<lparr>duplicate := 1\<rparr>)"
  by (simp add: findDuplicateFromImageHash_def findDuplicateFromUuid_def findOne_def
      countDuplicate_def options0_def skin0_def world0_def hash0_def uuid0_def Let_def)

text \<open>What the two probes do filter on: the name and the visibility of the request (and
  the stored model against the name).\<close>

lemma findDuplicate_name_visibility:
  "fst (findDuplicateFromImageHash hash options type w) = Some d \<or>
   fst (findDuplicateFromUuid uuid options type w) = Some d \<Longrightarrow>
     skin_name d = opt_name options \<and> skin_visibility d = opt_visibility options \<and>
     SkinModel_str (skin_model d) = opt_name options"
  by (auto simp: findDuplicateFromImageHash_def findDuplicateFromUuid_def countDuplicate_def
      Let_def split: if_splits option.splits dest!: findOne_Some)

section \<open>Releasing an account\<close>

lemma findUsable_counters:
  "findUsable E w = (Some acc, w') \<Longrightarrow>
     successCounter acc \<noteq> None \<and> errorCounter acc \<noteq> None \<and>
     totalSuccessCounter acc \<noteq> None \<and> totalErrorCounter acc \<noteq> None"
  by (auto simp: findUsable_def Let_def or_zero_def split: list.splits option.splits)

text \<open>
  C5. For an account whose counters are numbers (\<^verbatim>\<open>findUsable\<close> makes them so):
  \<^verbatim>\<open>handleGenerateSuccess\<close> sets \<^verbatim>\<open>errorCounter\<close> to 0 and adds one to
  \<^verbatim>\<open>successCounter\<close> and \<^verbatim>\<open>totalSuccessCounter\<close>; \<^verbatim>\<open>handleGenerateError\<close> sets
  \<^verbatim>\<open>successCounter\<close> to 0 and adds one to \<^verbatim>\<open>errorCounter\<close> and
  \<^verbatim>\<open>totalErrorCounter\<close>, and when the error is an \<^verbatim>\<open>AuthenticationError\<close> it also
  sets \<^verbatim>\<open>forcedTimeoutAt\<close> to the current second and clears \<^verbatim>\<open>requestServer\<close>
  (which another error leaves alone). Both save the account.
\<close>

theorem release_counters:
  "successCounter a = Some s \<Longrightarrow> errorCounter a = Some e \<Longrightarrow>
   totalSuccessCounter a = Some ts \<Longrightarrow> totalErrorCounter a = Some te \<Longrightarrow>
     (\<exists>a'. handleGenerateSuccess (Some a) w = (Some a', save_account a' w) \<and>
          errorCounter a' = Some 0 \<and> successCounter a' = Some (s + 1) \<and>
          totalSuccessCounter a' = Some (ts + 1) \<and> totalErrorCounter a' = Some te) \<and>
     (\<exists>a'. handleGenerateError E err (Some a) w = (Some a', save_account a' w) \<and>
          successCounter a' = Some 0 \<and> errorCounter a' = Some (e + 1) \<and>
          totalErrorCounter a' = Some (te + 1) \<and> totalSuccessCounter a' = Some ts \<and>
          (if err = AuthenticationError
           then forcedTimeoutAt a' = Some (time_error E) \<and> requestServer a' = None
           else forcedTimeoutAt a' = forcedTimeoutAt a \<and> requestServer a' = requestServer a))"
  by (simp add: handleGenerateSuccess_def handleGenerateError_def incr_def Let_def
      updateRequestServer_def)

theorem release_counters_witness:
  "(\<exists>a'. fst (handleGenerateSuccess (Some account_used) world0) = Some a' \<and>
      errorCounter a' = Some 0 \<and> successCounter a' = Some 4 \<and> totalSuccessCounter a' = Some 6) \<and>
   (\<exists>a'. fst (handleGenerateError env0 AuthenticationError (Some account_used) world0) = Some a' \<and>
      successCounter a' = Some 0 \<and> errorCounter a' = Some 3 \<and> totalErrorCounter a' = Some 5 \<and>
      forcedTimeoutAt a' = Some 1002 \<and> requestServer a' = None) \<and>
   (\<exists>a'. fst (handleGenerateError env0 (GeneratorError SKIN_CHANGE_FAILED) (Some account_used) world0) = Some a' \<and>
      successCounter a' = Some 0 \<and> errorCounter a' = Some 3 \<and> totalErrorCounter a' = Some 5 \<and>
      forcedTimeoutAt a' = Some 0 \<and> requestServer a' = Some ''s1'')"
proof -
  have c: "successCounter account_used = Some 3" "errorCounter account_used = Some 2"
    "totalSuccessCounter account_used = Some 5" "totalErrorCounter account_used = Some 4"
    by (simp_all add: account_used_def)
  have f: "forcedTimeoutAt account_used = Some 0" "requestServer account_used = Some ''s1''"
    by (simp_all add: account_used_def)
  have t: "time_error env0 = 1002" by (simp add: env0_def)
  from release_counters [OF c, of world0 env0 AuthenticationError]
    release_counters [OF c, of world0 env0 "GeneratorError SKIN_CHANGE_FAILED"]
  show ?thesis unfolding f t by fastforce
qed

section \<open>Selecting an account\<close>

lemma sort_key_hd_in: "sort_key f xs = a # rest \<Longrightarrow> a \<in> set xs"
proof -
  assume "sort_key f xs = a # rest"
  then have "a \<in> set (sort_key f xs)" by simp
  then show ?thesis by simp
qed

lemma mongo_lt_iff: "mongo_lt field bound \<longleftrightarrow> (\<exists>v. field = Some v \<and> v < bound)"
  by (cases field) (simp_all add: mongo_lt_def)

lemma findUsable_pool:
  "fst (findUsable env0 world_pool) = Some (account_new\<lparr>lastSelected := Some 1000\<rparr>)"
  by (simp add: findUsable_def world_pool_def usable_def mongo_lt_def error_threshold_def
      env0_def account_new_def account_used_def Let_def or_zero_def save_account_def emit_def
      less_eq_prod_def less_prod_def)

text \<open>
  C4, as the code has it. The account \<^verbatim>\<open>findUsable\<close> returns is a stored account
  \<open>a\<close> with \<^verbatim>\<open>lastSelected\<close> stamped and the counters defaulted, and \<open>a\<close>, as it
  was stored when the query ran at the second \<open>time_selected E\<close>, is enabled, has an
  \<^verbatim>\<open>errorCounter\<close> below the threshold and a \<^verbatim>\<open>timeAdded\<close> more than 60 seconds
  back, has each of \<^verbatim>\<open>lastUsed\<close>, \<^verbatim>\<open>lastSelected\<close> and \<^verbatim>\<open>forcedTimeoutAt\<close>
  either absent or more than 100, 50 and 500 seconds back, has no \<^verbatim>\<open>requestServer\<close>
  or "default" or this server, and was not locked; its id is locked afterwards.
\<close>

theorem findUsable_eligible:
  "findUsable E w = (Some acc, w') \<Longrightarrow>
     \<exists>a\<in>set (accounts w).
       acc = a\<lparr>lastSelected := Some (time_selected E),
               successCounter := or_zero (successCounter a),
               errorCounter := or_zero (errorCounter a),
               totalSuccessCounter := or_zero (totalSuccessCounter a),
               totalErrorCounter := or_zero (totalErrorCounter a)\<rparr> \<and>
       enabled a \<and>
       (\<exists>e. errorCounter a = Some e \<and> e < error_threshold E) \<and>
       (\<exists>t. timeAdded a = Some t \<and> t < time_selected E - 60) \<and>
       (lastUsed a = None \<or> (\<exists>t. lastUsed a = Some t \<and> t < time_selected E - 100)) \<and>
       (lastSelected a = None \<or> (\<exists>t. lastSelected a = Some t \<and> t < time_selected E - 50)) \<and>
       (forcedTimeoutAt a = None \<or>
          (\<exists>t. forcedTimeoutAt a = Some t \<and> t < time_selected E - 500)) \<and>
       (requestServer a = None \<or> requestServer a = Some ''default'' \<or>
          requestServer a = Some (server E)) \<and>
       acc_id a \<notin> set (lockedAccounts w) \<and>
       acc_id a \<in> set (lockedAccounts w')"
proof -
  assume run: "findUsable E w = (Some acc, w')"
  let ?us = "filter (usable E (time_selected E) (lockedAccounts w)) (accounts w)"
  let ?key = "\<lambda>a. (lastUsed a, lastSelected a, sameTextureCounter a)"
  from run obtain a rest where s: "sort_key ?key ?us = a # rest"
    by (auto simp: findUsable_def Let_def split: list.splits)
  from sort_key_hd_in [OF s] have a: "a \<in> set (accounts w)"
    and u: "usable E (time_selected E) (lockedAccounts w) a" by simp_all
  from run s have acc: "acc = a\<lparr>lastSelected := Some (time_selected E),
               successCounter := or_zero (successCounter a),
               errorCounter := or_zero (errorCounter a),
               totalSuccessCounter := or_zero (totalSuccessCounter a),
               totalErrorCounter := or_zero (totalErrorCounter a)\<rparr>"
    and l: "lockedAccounts w' = acc_id a # lockedAccounts w"
    by (auto simp: findUsable_def Let_def save_account_def emit_def)
  from u have "enabled a \<and>
       (\<exists>e. errorCounter a = Some e \<and> e < error_threshold E) \<and>
       (\<exists>t. timeAdded a = Some t \<and> t < time_selected E - 60) \<and>
       (lastUsed a = None \<or> (\<exists>t. lastUsed a = Some t \<and> t < time_selected E - 100)) \<and>
       (lastSelected a = None \<or> (\<exists>t. lastSelected a = Some t \<and> t < time_selected E - 50)) \<and>
       (forcedTimeoutAt a = None \<or>
          (\<exists>t. forcedTimeoutAt a = Some t \<and> t < time_selected E - 500)) \<and>
       (requestServer a = None \<or> requestServer a = Some ''default'' \<or>
          requestServer a = Some (server E)) \<and>
       acc_id a \<notin> set (lockedAccounts w)"
    by (simp add: usable_def mongo_lt_iff)
  with a acc l show ?thesis by (intro bexI [of _ a]) simp_all
qed

theorem findUsable_eligible_witness:
  "fst (findUsable env0 world_pool) = Some (account_new\<lparr>lastSelected := Some 1000\<rparr>) \<and>
   enabled account_new \<and> errorCounter account_new = Some 0 \<and> error_threshold env0 = 10 \<and>
   timeAdded account_new = Some 100 \<and> lastUsed account_new = None"
proof -
  obtain w' where run: "findUsable env0 world_pool = (Some (account_new\<lparr>lastSelected := Some 1000\<rparr>), w')"
    using findUsable_pool by (cases "findUsable env0 world_pool") simp
  from findUsable_eligible [OF run] findUsable_pool show ?thesis
    by (simp add: account_new_def error_threshold_def env0_def)
qed

text \<open>
  C4 as it is stated fails: the account \<open>account_new\<close> was never used, so it has no
  \<^verbatim>\<open>lastUsed\<close>, no \<^verbatim>\<open>lastSelected\<close> and no \<^verbatim>\<open>forcedTimeoutAt\<close> below any
  bound; \<^verbatim>\<open>findUsable\<close> returns it (before the account that was used, which sorts
  later).
\<close>

theorem findUsable_counterexample:
  "fst (findUsable env0 world_pool) = Some (account_new\<lparr>lastSelected := Some 1000\<rparr>) \<and>
   account_new \<in> set (accounts world_pool) \<and>
   time_selected env0 = 1000 \<and>
   lastUsed account_new = None \<and>
   \<not> eligible_spec env0 1000 (lockedAccounts world_pool) account_new"
  by (simp add: findUsable_pool)
     (simp add: eligible_spec_def has_below_def world_pool_def account_new_def env0_def)


section \<open>Authentication\<close>

text \<open>
  C8, as the code has it. For an account that has a client token and an access token,
  \<^verbatim>\<open>authenticate\<close> posts \<^verbatim>\<open>validate\<close> first; when that request ends without a
  transport error, with a status from 200 to 230 and with no \<^verbatim>\<open>error\<close> in the body,
  the callback gets the account as it was, nothing is saved, and neither
  \<^verbatim>\<open>refresh\<close> nor \<^verbatim>\<open>authenticate\<close> is posted.
\<close>

theorem authenticate_valid_tokens:
  "truthy (clientToken a) \<Longrightarrow> truthy (accessToken a) \<Longrightarrow>
   validate_response U = Response status body \<Longrightarrow> 200 \<le> status \<Longrightarrow> status \<le> 230 \<Longrightarrow>
   (case body of None \<Rightarrow> True | Some b \<Rightarrow> \<not> truthy (body_error b)) \<Longrightarrow>
     authenticate U a w = ([POST_validate], Cb_account a, w)"
  by (auto simp: authenticate_def split: option.splits)

theorem authenticate_valid_tokens_witness:
  "authenticate upstream_valid account_used world_accounts
     = ([POST_validate], Cb_account account_used, world_accounts)"
  by (rule authenticate_valid_tokens [where status = 204 and body = None])
     (simp_all add: truthy_def account_used_def upstream_valid_def)


text \<open>
  C8 as it is stated fails twice. With both tokens and a \<^verbatim>\<open>validate\<close> response of
  status 200 whose body carries an \<^verbatim>\<open>error\<close>, \<^verbatim>\<open>refresh\<close> is posted. With an
  access token but no client token, \<^verbatim>\<open>validate\<close> is not posted at all: the login
  request is the first.
\<close>

theorem authenticate_counterexample:
  "accessToken account_used = Some ''token'' \<and>
   validate_response upstream_error_body
     = Response 200 (Some \<lparr>body_error = Some ''ForbiddenOperationException'',
                           body_accessToken = None\<rparr>) \<and>
   fst (authenticate upstream_error_body account_used world_accounts)
     = [POST_validate, POST_refresh] \<and>
   accessToken (account_used\<lparr>clientToken := None\<rparr>) = Some ''token'' \<and>
   fst (authenticate upstream_valid (account_used\<lparr>clientToken := None\<rparr>) world_accounts)
     = [POST_authenticate]"
  by (simp add: authenticate_def refresh_def loginCallback_def truthy_def account_used_def
      upstream_error_body_def upstream_valid_def Let_def)

section \<open>What a step does to the world\<close>

lemma emit_simps [simp]:
  "skins (emit e w) = skins w" "accounts (emit e w) = accounts w"
  "lockedAccounts (emit e w) = lockedAccounts w" "tempFiles (emit e w) = tempFiles w"
  "events (emit e w) = events w @ [e]"
  by (simp_all add: emit_def)

lemma save_skin_simps [simp]:
  "skins (save_skin s w) = map (\<lambda>x. if skin_oid x = skin_oid s then s else x) (skins w)"
  "accounts (save_skin s w) = accounts w"
  "lockedAccounts (save_skin s w) = lockedAccounts w" "tempFiles (save_skin s w) = tempFiles w"
  "events (save_skin s w) = events w"
  by (simp_all add: save_skin_def)

lemma save_account_simps [simp]:
  "skins (save_account a w) = skins w"
  "accounts (save_account a w) = map (\<lambda>x. if acc_oid x = acc_oid a then a else x) (accounts w)"
  "lockedAccounts (save_account a w) = lockedAccounts w"
  "tempFiles (save_account a w) = tempFiles w"
  "events (save_account a w) = events w"
  by (simp_all add: save_account_def)

lemma grows_iff: "grows P evs evs' \<longleftrightarrow> (\<exists>new. evs' = evs @ new \<and> list_all P new)"
proof
  assume "grows P evs evs'"
  then have "evs' = evs @ drop (length evs) evs'" "list_all P (drop (length evs) evs')"
    by (simp_all add: grows_def) (metis append_take_drop_id)
  then show "\<exists>new. evs' = evs @ new \<and> list_all P new" by blast
next
  assume "\<exists>new. evs' = evs @ new \<and> list_all P new"
  then show "grows P evs evs'" by (auto simp: grows_def)
qed

lemma grows_refl [simp]: "grows P evs evs"
  by (simp add: grows_def)

lemma grows_trans: "grows P a b \<Longrightarrow> grows P b c \<Longrightarrow> grows P a c"
  by (auto simp: grows_iff)

lemma grows_snoc: "grows P a b \<Longrightarrow> P e \<Longrightarrow> grows P a (b @ [e])"
  by (auto simp: grows_iff)

lemma grows_mono: "grows P a b \<Longrightarrow> (\<And>e. P e \<Longrightarrow> Q e) \<Longrightarrow> grows Q a b"
  by (auto simp: grows_iff list_all_iff)

lemma grows_new: "grows P a b \<Longrightarrow> list_all P (drop (length a) b)"
  by (simp add: grows_def)

lemma silent_refl [simp]: "silent w w"
  by (simp add: silent_def)

lemma silent_trans: "silent w w1 \<Longrightarrow> silent w1 w2 \<Longrightarrow> silent w w2"
  by (auto simp: silent_def intro: grows_trans)

lemma silent_nodup: "silent w w' \<Longrightarrow> nodup w w'"
  by (auto simp: silent_def nodup_def elim: grows_mono)

lemma nodup_refl [simp]: "nodup w w"
  by (simp add: nodup_def)

lemma nodup_trans: "nodup w w1 \<Longrightarrow> nodup w1 w2 \<Longrightarrow> nodup w w2"
  by (auto simp: nodup_def intro: grows_trans)

lemma hit_silent: "hit s w w1 \<Longrightarrow> silent w1 w2 \<Longrightarrow> hit s w w2"
  by (auto simp: hit_def silent_def intro: grows_trans elim: grows_mono)

lemma silent_hit: "silent w w1 \<Longrightarrow> hit s w1 w2 \<Longrightarrow> hit s w w2"
  by (auto simp: hit_def silent_def intro: grows_trans elim: grows_mono)

lemma silent_emit: "\<not> is_duplicate_metric e \<Longrightarrow> \<not> is_generation_event e \<Longrightarrow> silent w (emit e w)"
  by (simp add: silent_def grows_snoc)

lemma nodup_emit: "\<not> is_duplicate_metric e \<Longrightarrow> nodup w (emit e w)"
  by (simp add: nodup_def grows_snoc)

lemma nodup_events: "events w2 = events w1 \<Longrightarrow> nodup w w1 \<Longrightarrow> nodup w w2"
  by (simp add: nodup_def)

lemma Temp_file_silent: "Temp_file w = (h, w') \<Longrightarrow> silent w w'"
  by (auto simp: Temp_file_def Let_def silent_def grows_snoc)

lemma Temp_write_silent: "silent w (Temp_write h c w)"
  by (simp add: Temp_write_def silent_def)

lemma Temp_remove_silent: "silent w (Temp_remove h w)"
  by (simp add: Temp_remove_def silent_def grows_snoc)

lemma Temp_downloadImage_silent: "Temp_downloadImage E url h w = Some w' \<Longrightarrow> silent w w'"
  by (auto simp: Temp_downloadImage_def Temp_write_silent split: option.splits)

lemma Temp_copyUploadedImage_silent: "Temp_copyUploadedImage file h w = Some w' \<Longrightarrow> silent w w'"
  by (auto simp: Temp_copyUploadedImage_def Temp_write_silent split: if_splits)

lemma countDuplicate_hit:
  "s \<in> set (skins w) \<Longrightarrow> countDuplicate s source type w = (r, w') \<Longrightarrow>
     r = Some (counted s) \<and> hit s w w'"
  by (auto simp: countDuplicate_def Let_def hit_def counted_def grows_snoc)

lemma findDuplicateFromUrl_cases:
  "findDuplicateFromUrl E url options type w = (r, w') \<Longrightarrow>
     (r = None \<and> w' = w) \<or> (\<exists>s. r = Some (counted s) \<and> hit s w w')"
  by (auto simp: findDuplicateFromUrl_def split: if_splits option.splits prod.splits
      dest!: findOne_Some dest: countDuplicate_hit)

lemma findDuplicateFromImageHash_cases:
  "findDuplicateFromImageHash hash options type w = (r, w') \<Longrightarrow>
     (r = None \<and> w' = w) \<or> (\<exists>s. r = Some (counted s) \<and> hit s w w')"
  by (auto simp: findDuplicateFromImageHash_def split: if_splits option.splits
      dest!: findOne_Some dest: countDuplicate_hit)

lemma findDuplicateFromUuid_cases:
  "findDuplicateFromUuid uuid options type w = (r, w') \<Longrightarrow>
     (r = None \<and> w' = w) \<or> (\<exists>s. r = Some (counted s) \<and> hit s w w')"
  by (auto simp: findDuplicateFromUuid_def split: if_splits option.splits
      dest!: findOne_Some dest: countDuplicate_hit)

lemma validateTempFile_cases:
  "validateTempFile f options type w = (r, options', w') \<Longrightarrow>
     (case r of
        Inl e \<Rightarrow> w' = w
      | Inr v \<Rightarrow> (val_duplicate v = None \<and> w' = w) \<or>
                 (\<exists>s. val_duplicate v = Some (counted s) \<and> hit s w w'))"
  by (auto simp: validateTempFile_def Let_def
      split: if_splits option.splits sum.splits prod.splits
      dest!: findDuplicateFromImageHash_cases)

lemma findUsable_nodup: "findUsable E w = (r, w') \<Longrightarrow> nodup w w'"
  by (auto simp: findUsable_def Let_def nodup_def grows_snoc split: list.splits)

lemma getAndAuthenticateAccount_nodup: "getAndAuthenticateAccount E w = (r, w') \<Longrightarrow> nodup w w'"
  by (auto simp: getAndAuthenticateAccount_def split: prod.splits option.splits sum.splits
      dest: findUsable_nodup)

lemma handleGenerateSuccess_nodup: "handleGenerateSuccess a w = (r, w') \<Longrightarrow> nodup w w'"
  by (auto simp: handleGenerateSuccess_def Let_def nodup_def split: option.splits)

lemma handleGenerateError_nodup: "nodup w (snd (handleGenerateError E e a w))"
  by (auto simp: handleGenerateError_def Let_def nodup_def split: option.splits)

lemma handleGenerateError_None [simp]: "handleGenerateError E e None w = (None, w)"
  by (simp add: handleGenerateError_def)

lemma getMojangHash_silent: "getMojangHash E url w = (r, w') \<Longrightarrow> silent w w'"
proof -
  assume run: "getMojangHash E url w = (r, w')"
  obtain h w1 where t: "Temp_file w = (h, w1)" by (cases "Temp_file w")
  from Temp_file_silent [OF t] have s1: "silent w w1" .
  show ?thesis
  proof (cases "Temp_downloadImage E url h w1")
    case None
    with run t have "w' = Temp_remove h w1" by (simp add: getMojangHash_def)
    with s1 show ?thesis by (auto intro: silent_trans Temp_remove_silent)
  next
    case (Some w2)
    with run t have "w' = Temp_remove h w2"
      by (auto simp: getMojangHash_def split: option.splits)
    with s1 Temp_downloadImage_silent [OF Some] show ?thesis
      by (auto intro: silent_trans Temp_remove_silent)
  qed
qed

lemma nodup_getMojangHash:
  "getMojangHash E u w2 = (x, w3) \<Longrightarrow> nodup w w2 \<Longrightarrow> nodup w w3"
  by (blast intro: nodup_trans silent_nodup dest: getMojangHash_silent)

lemma nodup_handleGenerateSuccess:
  "handleGenerateSuccess a w3 = (r, w4) \<Longrightarrow> nodup w w3 \<Longrightarrow> nodup w w4"
  by (blast intro: nodup_trans dest: handleGenerateSuccess_nodup)

lemma runGeneration_nodup: "runGeneration E v w = (r, a, w') \<Longrightarrow> nodup w w'"
proof -
  assume run: "runGeneration E v w = (r, a, w')"
  obtain ra w1 where g: "getAndAuthenticateAccount E w = (ra, w1)"
    by (cases "getAndAuthenticateAccount E w")
  from getAndAuthenticateAccount_nodup [OF g] have n1: "nodup w w1" .
  show ?thesis
  proof (cases ra)
    case (Inl e)
    with run g n1 show ?thesis by (simp add: runGeneration_def)
  next
    case (Inr account)
    have n2: "nodup w (emit (SkinChangeRequest (acc_id account)) w1)"
      by (rule nodup_trans [OF n1 nodup_emit]) simp
    from run g Inr n2 show ?thesis
      by (auto simp: runGeneration_def Let_def
          split: SkinChange.splits sum.splits option.splits prod.splits
          dest: nodup_getMojangHash nodup_handleGenerateSuccess)
  qed
qed

lemma validateAndGenerate_cases:
  "validateAndGenerate E f options type w = (r, a, options', w') \<Longrightarrow>
     (\<exists>s. r = Inr (no_result\<lparr>res_duplicate := Some (counted s)\<rparr>) \<and> a = None \<and> hit s w w')
     \<or> nodup w w'"
proof -
  assume run: "validateAndGenerate E f options type w = (r, a, options', w')"
  obtain rv ov w1 where v: "validateTempFile f options type w = (rv, ov, w1)"
    by (cases "validateTempFile f options type w")
  note c = validateTempFile_cases [OF v]
  show ?thesis
  proof (cases rv)
    case (Inl e)
    with run v c show ?thesis by (simp add: validateAndGenerate_def)
  next
    case (Inr tv)
    show ?thesis
    proof (cases "val_duplicate tv")
      case None
      with Inr c have "w1 = w" by simp
      with run v Inr None show ?thesis
        by (auto simp: validateAndGenerate_def split: prod.splits dest: runGeneration_nodup)
    next
      case (Some d)
      with Inr c obtain s where "d = counted s" "hit s w w1" by auto
      with run v Inr Some show ?thesis by (auto simp: validateAndGenerate_def)
    qed
  qed
qed

lemma nodup_silent_trans: "silent w w1 \<Longrightarrow> nodup w1 w2 \<Longrightarrow> nodup w w2"
  by (blast intro: nodup_trans silent_nodup)

lemma generateFromUpload_try_cases:
  "generateFromUpload_try E file options w = (r, a, tf, options', w') \<Longrightarrow>
     (\<exists>s. r = Inr (no_result\<lparr>res_duplicate := Some (counted s)\<rparr>) \<and> a = None \<and> hit s w w')
     \<or> nodup w w'"
proof -
  assume run: "generateFromUpload_try E file options w = (r, a, tf, options', w')"
  obtain h w1 where t: "Temp_file w = (h, w1)" by (cases "Temp_file w")
  from Temp_file_silent [OF t] have s1: "silent w w1" .
  show ?thesis
  proof (cases "Temp_copyUploadedImage file h w1")
    case None
    with run t have "w' = w1" by (simp add: generateFromUpload_try_def)
    with s1 show ?thesis by (simp add: silent_nodup)
  next
    case (Some w2)
    from Temp_copyUploadedImage_silent [OF Some] s1 have s2: "silent w w2"
      by (blast intro: silent_trans)
    from run t Some have "validateAndGenerate E h options UPLOAD w2 = (r, a, options', w')"
      by (auto simp: generateFromUpload_try_def split: prod.splits)
    from validateAndGenerate_cases [OF this] s2 show ?thesis
      by (blast intro: silent_hit nodup_silent_trans)
  qed
qed

lemma generateFromUrl_try_cases:
  "generateFromUrl_try E url options w = (r, a, tf, options', w') \<Longrightarrow>
     (\<exists>s. r = Inr (no_result\<lparr>res_duplicate := Some (counted s)\<rparr>) \<and> a = None \<and> hit s w w')
     \<or> nodup w w'"
proof -
  assume run: "generateFromUrl_try E url options w = (r, a, tf, options', w')"
  show ?thesis
  proof (cases "followUrl E url")
    case None
    with run show ?thesis by (simp add: generateFromUrl_try_def)
  next
    case (Some resp)
    show ?thesis
    proof (cases "responseUrl resp = []")
      case True
      with run Some show ?thesis by (simp add: generateFromUrl_try_def)
    next
      case False
      obtain rd w1 where d: "findDuplicateFromUrl E (responseUrl resp) options URL w = (rd, w1)"
        by (cases "findDuplicateFromUrl E (responseUrl resp) options URL w")
      from findDuplicateFromUrl_cases [OF d]
      show ?thesis
      proof
        assume "\<exists>s. rd = Some (counted s) \<and> hit s w w1"
        with run Some False d show ?thesis
          by (auto simp: generateFromUrl_try_def)
      next
        assume n: "rd = None \<and> w1 = w"
        obtain h w2 where t: "Temp_file w = (h, w2)" by (cases "Temp_file w")
        from Temp_file_silent [OF t] have s2: "silent w w2" .
        from run Some False d n t consider "w' = w" | "w' = w2"
          | w3 where "Temp_downloadImage E (responseUrl resp) h w2 = Some w3"
              "validateAndGenerate E h options URL w3 = (r, a, options', w')"
          by (auto simp: generateFromUrl_try_def Let_def
              split: if_splits option.splits prod.splits)
        then show ?thesis
        proof cases
          case 1
          then show ?thesis by simp
        next
          case 2
          with s2 show ?thesis by (simp add: silent_nodup)
        next
          case 3
          from Temp_downloadImage_silent [OF 3(1)] s2 have "silent w w3"
            by (blast intro: silent_trans)
          with validateAndGenerate_cases [OF 3(2)] show ?thesis
            by (blast intro: silent_hit nodup_silent_trans)
        qed
      qed
    qed
  qed
qed

lemma catch_finally_cases:
  "catch_finally E (r, a, tf, options, w1) = (r', options', w') \<Longrightarrow>
   (\<exists>s. r = Inr (no_result\<lparr>res_duplicate := Some (counted s)\<rparr>) \<and> a = None \<and> hit s w w1)
     \<or> nodup w w1 \<Longrightarrow>
     r' = r \<and> options' = options \<and>
     ((\<exists>s. r = Inr (no_result\<lparr>res_duplicate := Some (counted s)\<rparr>) \<and> hit s w w')
      \<or> nodup w w')"
proof -
  assume run: "catch_finally E (r, a, tf, options, w1) = (r', options', w')"
    and c: "(\<exists>s. r = Inr (no_result\<lparr>res_duplicate := Some (counted s)\<rparr>) \<and> a = None \<and> hit s w w1)
     \<or> nodup w w1"
  let ?w2 = "case r of Inl e \<Rightarrow> snd (handleGenerateError E e a w1) | Inr res \<Rightarrow> w1"
  from run have eq: "r' = r" "options' = options"
    and w': "w' = (case tf of Some f \<Rightarrow> Temp_remove f ?w2 | None \<Rightarrow> ?w2)"
    by (auto simp: catch_finally_def Let_def)
  have fin: "silent ?w2 w'"
    unfolding w' by (cases tf) (simp_all add: Temp_remove_silent)
  from c show ?thesis
  proof
    assume "\<exists>s. r = Inr (no_result\<lparr>res_duplicate := Some (counted s)\<rparr>) \<and> a = None \<and> hit s w w1"
    then obtain s where r: "r = Inr (no_result\<lparr>res_duplicate := Some (counted s)\<rparr>)"
      and h: "hit s w w1" by blast
    from r have "?w2 = w1" by simp
    with fin h have "hit s w w'" by (auto intro: hit_silent)
    with r eq show ?thesis by blast
  next
    assume n: "nodup w w1"
    have "nodup w1 ?w2"
      by (cases r) (simp_all add: handleGenerateError_nodup)
    with n fin have "nodup w w'" by (blast intro: nodup_trans silent_nodup)
    with eq show ?thesis by simp
  qed
qed

lemma saveSkin_nodup: "saveSkin E result options client type start w = (r, w') \<Longrightarrow> nodup w w'"
  by (auto simp: saveSkin_def insert_skin_def Let_def nodup_def
      split: sum.splits option.splits)

lemma nodup_emit_right: "nodup w x \<Longrightarrow> \<not> is_duplicate_metric e \<Longrightarrow> nodup w (emit e x)"
  by (blast intro: nodup_trans nodup_emit)

lemma nodup_emit_left: "nodup (emit e w) x \<Longrightarrow> \<not> is_duplicate_metric e \<Longrightarrow> nodup w x"
  by (blast intro: nodup_trans nodup_emit)

lemma getDuplicateOrSaved_nodup:
  "getDuplicateOrSaved E result options client type start w = (r, w') \<Longrightarrow> nodup w w'"
  by (auto simp: getDuplicateOrSaved_def split: option.splits
      dest!: saveSkin_nodup intro: nodup_emit_left)

lemma andSave_cases:
  "andSave E client type (r, options, w1) = (r', w') \<Longrightarrow>
   (\<exists>s. r = Inr (no_result\<lparr>res_duplicate := Some (counted s)\<rparr>) \<and> hit s w w1)
     \<or> nodup w w1 \<Longrightarrow>
     (\<exists>s. r' = Inr (counted s) \<and> hit s w w') \<or> nodup w w'"
proof -
  assume run: "andSave E client type (r, options, w1) = (r', w')"
    and c: "(\<exists>s. r = Inr (no_result\<lparr>res_duplicate := Some (counted s)\<rparr>) \<and> hit s w w1)
     \<or> nodup w w1"
  from c show ?thesis
  proof
    assume "\<exists>s. r = Inr (no_result\<lparr>res_duplicate := Some (counted s)\<rparr>) \<and> hit s w w1"
    then obtain s where r: "r = Inr (no_result\<lparr>res_duplicate := Some (counted s)\<rparr>)"
      and h: "hit s w w1" by blast
    from run r have "r' = Inr (counted s)" "w' = emit (DurationMetric type) w1"
      by (simp_all add: andSave_def getDuplicateOrSaved_def)
    moreover have "silent w1 (emit (DurationMetric type) w1)" by (simp add: silent_emit)
    ultimately have "r' = Inr (counted s) \<and> hit s w w'" using h by (simp add: hit_silent)
    then show ?thesis by blast
  next
    assume n: "nodup w w1"
    have "nodup w1 w'"
      using run
      by (auto simp: andSave_def split: sum.splits prod.splits
          dest!: getDuplicateOrSaved_nodup intro: nodup_emit_right)
    with n show ?thesis by (blast intro: nodup_trans)
  qed
qed

lemma generateFromUser_cases:
  "generateFromUser E uuid options w = (r, w') \<Longrightarrow>
     (\<exists>s. r = Inr (no_result\<lparr>res_duplicate := Some (counted s)\<rparr>) \<and> hit s w w') \<or> nodup w w'"
proof -
  assume run: "generateFromUser E uuid options w = (r, w')"
  show ?thesis
  proof (cases "longAndShortUuid E uuid")
    case None
    with run show ?thesis by (simp add: generateFromUser_def)
  next
    case (Some p)
    obtain long short where p: "p = (long, short)" by (cases p)
    obtain rd w1 where d: "findDuplicateFromUuid long options USER w = (rd, w1)"
      by (cases "findDuplicateFromUuid long options USER w")
    from findDuplicateFromUuid_cases [OF d] show ?thesis
    proof
      assume "\<exists>s. rd = Some (counted s) \<and> hit s w w1"
      with run Some p d show ?thesis by (auto simp: generateFromUser_def)
    next
      assume "rd = None \<and> w1 = w"
      with run Some p d show ?thesis
        by (auto simp: generateFromUser_def
            split: sum.splits option.splits prod.splits
            dest!: getMojangHash_silent intro: silent_nodup)
    qed
  qed
qed

lemma nodup_new_events:
  "nodup w w' \<Longrightarrow> e \<in> set (new_events w w') \<Longrightarrow> \<not> is_duplicate_metric e"
  by (auto simp: nodup_def new_events_def grows_def list_all_iff)

section \<open>Duplicates\<close>

lemma generateFromUrlAndSave_cases:
  "generateFromUrlAndSave E url options client w = (r, w') \<Longrightarrow>
     (\<exists>s. r = Inr (counted s) \<and> hit s w w') \<or> nodup w w'"
proof -
  assume run: "generateFromUrlAndSave E url options client w = (r, w')"
  obtain rt a tf ot wt where t: "generateFromUrl_try E url options w = (rt, a, tf, ot, wt)"
    by (cases "generateFromUrl_try E url options w")
  obtain rc oc wc where c: "catch_finally E (rt, a, tf, ot, wt) = (rc, oc, wc)"
    by (cases "catch_finally E (rt, a, tf, ot, wt)")
  from catch_finally_cases [OF c generateFromUrl_try_cases [OF t]]
  have "(\<exists>s. rc = Inr (no_result\<lparr>res_duplicate := Some (counted s)\<rparr>) \<and> hit s w wc)
     \<or> nodup w wc" by simp
  moreover from run t c have "andSave E client URL (rc, oc, wc) = (r, w')"
    by (simp add: generateFromUrlAndSave_def generateFromUrl_def)
  ultimately show ?thesis by (rule andSave_cases [rotated])
qed

lemma generateFromUploadAndSave_cases:
  "generateFromUploadAndSave E file options client w = (r, w') \<Longrightarrow>
     (\<exists>s. r = Inr (counted s) \<and> hit s w w') \<or> nodup w w'"
proof -
  assume run: "generateFromUploadAndSave E file options client w = (r, w')"
  obtain rt a tf ot wt where t: "generateFromUpload_try E file options w = (rt, a, tf, ot, wt)"
    by (cases "generateFromUpload_try E file options w")
  obtain rc oc wc where c: "catch_finally E (rt, a, tf, ot, wt) = (rc, oc, wc)"
    by (cases "catch_finally E (rt, a, tf, ot, wt)")
  from catch_finally_cases [OF c generateFromUpload_try_cases [OF t]]
  have "(\<exists>s. rc = Inr (no_result\<lparr>res_duplicate := Some (counted s)\<rparr>) \<and> hit s w wc)
     \<or> nodup w wc" by simp
  moreover from run t c have "andSave E client UPLOAD (rc, oc, wc) = (r, w')"
    by (simp add: generateFromUploadAndSave_def generateFromUpload_def)
  ultimately show ?thesis by (rule andSave_cases [rotated])
qed

lemma generateFromUserAndSave_cases:
  "generateFromUserAndSave E user options client w = (r, w') \<Longrightarrow>
     (\<exists>s. r = Inr (counted s) \<and> hit s w w') \<or> nodup w w'"
proof -
  assume run: "generateFromUserAndSave E user options client w = (r, w')"
  obtain ru wu where u: "generateFromUser E user options w = (ru, wu)"
    by (cases "generateFromUser E user options w")
  from run u have "andSave E client USER (ru, options, wu) = (r, w')"
    by (simp add: generateFromUserAndSave_def)
  from this generateFromUser_cases [OF u] show ?thesis by (rule andSave_cases)
qed

lemma upload_duplicate_run:
  "generateFromUploadAndSave env0 upload0 options_unknown client0 world0 =
     (Inr (skin0\<lparr>duplicate := 1\<rparr>),
      \<lparr>skins = [skin0\<lparr>duplicate := 1\<rparr>], accounts = [], lockedAccounts = [], tempFiles = [],
        events = [TempCreated 1, DuplicateMetric IMAGE_HASH UPLOAD, TempRemoved 1,
                  DurationMetric UPLOAD]\<rparr>)"
  by (simp add: generateFromUploadAndSave_def generateFromUpload_def generateFromUpload_try_def
      catch_finally_def andSave_def getDuplicateOrSaved_def validateAndGenerate_def
      validateTempFile_def validateImageData_clear findDuplicateFromImageHash_def
      countDuplicate_def findOne_def Temp_file_def Temp_copyUploadedImage_def Temp_write_def
      Temp_remove_def readFile_def fresh_def emit_def save_skin_def no_result_def
      MAX_IMAGE_SIZE_def ALLOWED_IMAGE_TYPES_def
      upload0_def content0_def options_unknown_def world0_def skin0_def hash0_def Let_def)

lemma new_events_emit_save [simp]:
  "new_events w (save_skin s (emit e w)) = [e]" "new_events w w = []"
  by (simp_all add: new_events_def)

lemma probe_hit_logged:
  "fst (findDuplicateFromUrl E url options type w) \<noteq> None \<longleftrightarrow>
     (\<exists>e\<in>set (new_events w (snd (findDuplicateFromUrl E url options type w))).
        is_duplicate_metric e)"
  "fst (findDuplicateFromImageHash hash options type w) \<noteq> None \<longleftrightarrow>
     (\<exists>e\<in>set (new_events w (snd (findDuplicateFromImageHash hash options type w))).
        is_duplicate_metric e)"
  "fst (findDuplicateFromUuid uuid options type w) \<noteq> None \<longleftrightarrow>
     (\<exists>e\<in>set (new_events w (snd (findDuplicateFromUuid uuid options type w))).
        is_duplicate_metric e)"
  by (auto simp: findDuplicateFromUrl_def findDuplicateFromImageHash_def
      findDuplicateFromUuid_def countDuplicate_def Let_def
      split: option.splits prod.splits)

text \<open>
  C7. A probe that finds a skin logs the \<^verbatim>\<open>DUPLICATES_METRIC\<close>, and no other step
  does. For each of the three entry points: when the run logged that metric (a probe
  hit: on the source URL, the user uuid or the image hash), the result is a skin \<open>s\<close> of
  the catalog with its duplicate counter incremented by one; the catalog is as before but
  for that skin (nothing is inserted); the accounts and the locked accounts are as
  before and no account was locked (none acquired); and no skin change was requested
  upstream.
\<close>

theorem duplicate_hit_no_generation:
  assumes run: "generateFromUrlAndSave E url options client w = (r, w') \<or>
      generateFromUploadAndSave E file options client w = (r, w') \<or>
      generateFromUserAndSave E user options client w = (r, w')"
    and probe: "\<exists>e\<in>set (new_events w w'). is_duplicate_metric e"
  shows "\<exists>s\<in>set (skins w).
      r = Inr (s\<lparr>duplicate := duplicate s + 1\<rparr>) \<and>
      skins w' = map (\<lambda>x. if skin_oid x = skin_oid s then s\<lparr>duplicate := duplicate s + 1\<rparr> else x)
                   (skins w) \<and>
      accounts w' = accounts w \<and> lockedAccounts w' = lockedAccounts w \<and>
      list_all (\<lambda>e. \<not> is_generation_event e) (new_events w w')"
proof -
  from run have "(\<exists>s. r = Inr (counted s) \<and> hit s w w') \<or> nodup w w'"
    by (blast dest: generateFromUrlAndSave_cases generateFromUploadAndSave_cases
        generateFromUserAndSave_cases)
  with probe obtain s where r: "r = Inr (counted s)" and h: "hit s w w'"
    by (blast dest: nodup_new_events)
  from h have "list_all (\<lambda>e. \<not> is_generation_event e) (new_events w w')"
    by (simp add: hit_def new_events_def grows_def)
  with r h show ?thesis
    by (intro bexI [of _ s]) (simp_all add: hit_def counted_def)
qed

theorem duplicate_hit_no_generation_witness:
  "fst (generateFromUploadAndSave env0 upload0 options_unknown client0 world0)
     = Inr (skin0\<lparr>duplicate := 1\<rparr>) \<and>
   DuplicateMetric IMAGE_HASH UPLOAD
     \<in> set (new_events world0 (snd (generateFromUploadAndSave env0 upload0 options_unknown client0 world0))) \<and>
   accounts (snd (generateFromUploadAndSave env0 upload0 options_unknown client0 world0)) = [] \<and>
   length (skins (snd (generateFromUploadAndSave env0 upload0 options_unknown client0 world0))) = 1"
proof -
  let ?w = "snd (generateFromUploadAndSave env0 upload0 options_unknown client0 world0)"
  have run: "generateFromUploadAndSave env0 upload0 options_unknown client0 world0
      = (Inr (skin0\<lparr>duplicate := 1\<rparr>), ?w)"
    by (simp add: upload_duplicate_run)
  have ev: "DuplicateMetric IMAGE_HASH UPLOAD \<in> set (new_events world0 ?w)"
    unfolding upload_duplicate_run by (simp add: new_events_def world0_def)
  then have probe: "\<exists>e\<in>set (new_events world0 ?w). is_duplicate_metric e"
    by (rule bexI [rotated]) simp
  from duplicate_hit_no_generation [OF disjI2 [OF disjI1 [OF run]] probe] ev
  show ?thesis unfolding upload_duplicate_run by (auto simp: world0_def)
qed

section \<open>Temporary files\<close>

lemma fold_max_ge: "a \<le> fold max ks (a::nat)" "k \<in> set ks \<Longrightarrow> k \<le> fold max ks a"
proof (induction ks arbitrary: a)
  case Nil
  { case 1 show ?case by simp }
  { case 2 then show ?case by simp }
next
  case (Cons x xs)
  { case 1
    have "max x a \<le> fold max xs (max x a)" by (rule Cons.IH(1))
    then show ?case by simp }
  { case 2
    show ?case
    proof (cases "k = x")
      case True
      have "max x a \<le> fold max xs (max x a)" by (rule Cons.IH(1))
      with True show ?thesis by simp
    next
      case False
      with 2 have "k \<in> set xs" by simp
      from Cons.IH(2) [OF this] show ?thesis by simp
    qed }
qed

lemma fresh_notin: "fresh ks \<notin> set ks"
proof
  assume "fresh ks \<in> set ks"
  from fold_max_ge(2) [OF this, of 0] show False by (simp add: fresh_def)
qed

lemma filter_other_keys:
  "h \<notin> fst ` set tf \<Longrightarrow> filter (\<lambda>(k, v). k \<noteq> h) tf = tf"
  by (induction tf) auto

lemma only_temp_Temp_file: "Temp_file w = (h, w1) \<Longrightarrow> only_temp w (Some h) w1"
proof -
  assume t: "Temp_file w = (h, w1)"
  then have h: "h = fresh (map fst (tempFiles w))"
    and tf: "tempFiles w1 = (h, empty_file) # tempFiles w"
    by (auto simp: Temp_file_def Let_def)
  from fresh_notin [of "map fst (tempFiles w)"] h have n: "h \<notin> fst ` set (tempFiles w)" by simp
  with tf filter_other_keys [OF n] show ?thesis by (simp add: only_temp_def)
qed

lemma filter_write:
  "filter (\<lambda>(k, v). k \<noteq> h) (map (\<lambda>(k, v). if k = h then (k, c) else (k, v)) xs)
     = filter (\<lambda>(k, v). k \<noteq> h) xs"
  by (induction xs) auto

lemma only_temp_write:
  "only_temp w (Some h) w1 \<Longrightarrow> only_temp w (Some h) (Temp_write h c w1)"
  by (simp add: only_temp_def Temp_write_def filter_write)

lemma only_temp_same:
  "only_temp w t w1 \<Longrightarrow> tempFiles w2 = tempFiles w1 \<Longrightarrow> only_temp w t w2"
  by (cases t) (simp_all add: only_temp_def)

lemma only_temp_remove: "only_temp w (Some h) w1 \<Longrightarrow> tempFiles (Temp_remove h w1) = tempFiles w"
  by (simp add: only_temp_def Temp_remove_def)

lemma only_temp_download:
  "Temp_downloadImage E url h w1 = Some w2 \<Longrightarrow> only_temp w (Some h) w1
     \<Longrightarrow> only_temp w (Some h) w2"
  by (auto simp: Temp_downloadImage_def only_temp_write split: option.splits)

lemma only_temp_copy:
  "Temp_copyUploadedImage file h w1 = Some w2 \<Longrightarrow> only_temp w (Some h) w1
     \<Longrightarrow> only_temp w (Some h) w2"
  by (auto simp: Temp_copyUploadedImage_def only_temp_write split: if_splits)

lemma tempFiles_countDuplicate [simp]:
  "tempFiles (snd (countDuplicate s source type w)) = tempFiles w"
  by (simp add: countDuplicate_def Let_def)

lemma tempFiles_findDuplicateFromUrl:
  "findDuplicateFromUrl E url options type w = (r, w') \<Longrightarrow> tempFiles w' = tempFiles w"
  by (auto simp: findDuplicateFromUrl_def countDuplicate_def Let_def
      split: if_splits option.splits prod.splits)

lemma tempFiles_findDuplicateFromImageHash:
  "findDuplicateFromImageHash hash options type w = (r, w') \<Longrightarrow> tempFiles w' = tempFiles w"
  by (auto simp: findDuplicateFromImageHash_def countDuplicate_def Let_def
      split: if_splits option.splits)

lemma tempFiles_findDuplicateFromUuid:
  "findDuplicateFromUuid uuid options type w = (r, w') \<Longrightarrow> tempFiles w' = tempFiles w"
  by (auto simp: findDuplicateFromUuid_def countDuplicate_def Let_def
      split: if_splits option.splits)

lemma tempFiles_validateTempFile:
  "validateTempFile f options type w = (r, options', w') \<Longrightarrow> tempFiles w' = tempFiles w"
  by (auto simp: validateTempFile_def Let_def
      split: if_splits option.splits sum.splits prod.splits
      dest: tempFiles_findDuplicateFromImageHash)

lemma tempFiles_findUsable: "findUsable E w = (r, w') \<Longrightarrow> tempFiles w' = tempFiles w"
  by (auto simp: findUsable_def Let_def split: list.splits)

lemma tempFiles_getAndAuthenticateAccount:
  "getAndAuthenticateAccount E w = (r, w') \<Longrightarrow> tempFiles w' = tempFiles w"
  by (auto simp: getAndAuthenticateAccount_def split: prod.splits option.splits sum.splits
      dest: tempFiles_findUsable)

lemma tempFiles_handleGenerateSuccess:
  "handleGenerateSuccess a w = (r, w') \<Longrightarrow> tempFiles w' = tempFiles w"
  by (auto simp: handleGenerateSuccess_def Let_def split: option.splits)

lemma tempFiles_handleGenerateError:
  "tempFiles (snd (handleGenerateError E e a w)) = tempFiles w"
  by (auto simp: handleGenerateError_def Let_def split: option.splits)

lemma tempFiles_getMojangHash:
  "getMojangHash E url w = (r, w') \<Longrightarrow> tempFiles w' = tempFiles w"
proof -
  assume run: "getMojangHash E url w = (r, w')"
  obtain h w1 where t: "Temp_file w = (h, w1)" by (cases "Temp_file w")
  note o1 = only_temp_Temp_file [OF t]
  show ?thesis
  proof (cases "Temp_downloadImage E url h w1")
    case None
    with run t have "w' = Temp_remove h w1" by (simp add: getMojangHash_def)
    with o1 show ?thesis by (simp add: only_temp_remove)
  next
    case (Some w2)
    with run t have "w' = Temp_remove h w2"
      by (auto simp: getMojangHash_def split: option.splits)
    with only_temp_download [OF Some o1] show ?thesis by (simp add: only_temp_remove)
  qed
qed

lemma tempFiles_runGeneration:
  "runGeneration E v w = (r, a, w') \<Longrightarrow> tempFiles w' = tempFiles w"
  by (auto simp: runGeneration_def Let_def
      split: SkinChange.splits sum.splits option.splits prod.splits
      dest!: tempFiles_getAndAuthenticateAccount tempFiles_getMojangHash
        tempFiles_handleGenerateSuccess)

lemma tempFiles_validateAndGenerate:
  "validateAndGenerate E f options type w = (r, a, options', w') \<Longrightarrow> tempFiles w' = tempFiles w"
  by (auto simp: validateAndGenerate_def split: sum.splits option.splits prod.splits
      dest!: tempFiles_validateTempFile tempFiles_runGeneration)

lemma only_temp_generateFromUpload_try:
  "generateFromUpload_try E file options w = (r, a, tf, options', w') \<Longrightarrow> only_temp w tf w'"
proof -
  assume run: "generateFromUpload_try E file options w = (r, a, tf, options', w')"
  obtain h w1 where t: "Temp_file w = (h, w1)" by (cases "Temp_file w")
  note o1 = only_temp_Temp_file [OF t]
  show ?thesis
  proof (cases "Temp_copyUploadedImage file h w1")
    case None
    with run t o1 show ?thesis by (auto simp: generateFromUpload_try_def)
  next
    case (Some w2)
    note o2 = only_temp_copy [OF Some o1]
    from run t Some have "validateAndGenerate E h options UPLOAD w2 = (r, a, options', w')"
      and "tf = Some h"
      by (auto simp: generateFromUpload_try_def split: prod.splits)
    with o2 show ?thesis by (auto dest!: tempFiles_validateAndGenerate intro: only_temp_same)
  qed
qed

lemma only_temp_generateFromUrl_try:
  "generateFromUrl_try E url options w = (r, a, tf, options', w') \<Longrightarrow> only_temp w tf w'"
proof -
  assume run: "generateFromUrl_try E url options w = (r, a, tf, options', w')"
  show ?thesis
  proof (cases "followUrl E url")
    case None
    with run show ?thesis by (auto simp: generateFromUrl_try_def only_temp_def)
  next
    case (Some resp)
    obtain rd w1 where d: "findDuplicateFromUrl E (responseUrl resp) options URL w = (rd, w1)"
      by (cases "findDuplicateFromUrl E (responseUrl resp) options URL w")
    note t1 = tempFiles_findDuplicateFromUrl [OF d]
    obtain h w2 where t: "Temp_file w1 = (h, w2)" by (cases "Temp_file w1")
    from only_temp_Temp_file [OF t] t1 have o2: "only_temp w (Some h) w2"
      by (simp add: only_temp_def)
    from run Some d t consider "tf = None" "w' = w" | "tf = None" "w' = w1"
      | "tf = Some h" "w' = w2"
      | w3 where "tf = Some h" "Temp_downloadImage E (responseUrl resp) h w2 = Some w3"
          "validateAndGenerate E h options URL w3 = (r, a, options', w')"
      by (auto simp: generateFromUrl_try_def Let_def
          split: if_splits option.splits prod.splits)
    then show ?thesis
    proof cases
      case 1
      then show ?thesis by (simp add: only_temp_def)
    next
      case 2
      with t1 show ?thesis by (simp add: only_temp_def)
    next
      case 3
      with o2 show ?thesis by simp
    next
      case 4
      from only_temp_download [OF 4(2) o2] 4(1,3) show ?thesis
        by (auto dest!: tempFiles_validateAndGenerate intro: only_temp_same)
    qed
  qed
qed

lemma tempFiles_catch_finally:
  "only_temp w tf w1 \<Longrightarrow> tempFiles (snd (snd (catch_finally E (r, a, tf, options, w1)))) = tempFiles w"
proof -
  assume o: "only_temp w tf w1"
  let ?w2 = "case r of Inl e \<Rightarrow> snd (handleGenerateError E e a w1) | Inr res \<Rightarrow> w1"
  have "tempFiles ?w2 = tempFiles w1"
    by (cases r) (simp_all add: tempFiles_handleGenerateError)
  with o have o2: "only_temp w tf ?w2" by (rule only_temp_same)
  show ?thesis
  proof (cases tf)
    case None
    with o2 show ?thesis by (simp add: catch_finally_def Let_def only_temp_def)
  next
    case (Some h)
    with o2 have "tempFiles (Temp_remove h ?w2) = tempFiles w" by (simp add: only_temp_remove)
    with Some show ?thesis by (simp add: catch_finally_def Let_def)
  qed
qed

lemma tempFiles_saveSkin:
  "saveSkin E result options client type start w = (r, w') \<Longrightarrow> tempFiles w' = tempFiles w"
  by (auto simp: saveSkin_def insert_skin_def Let_def split: sum.splits option.splits)

lemma tempFiles_andSave:
  "tempFiles (snd (andSave E client type (r, options, w))) = tempFiles w"
  by (auto simp: andSave_def getDuplicateOrSaved_def
      split: sum.splits option.splits prod.splits dest!: tempFiles_saveSkin)

lemma tempFiles_generateFromUser:
  "generateFromUser E uuid options w = (r, w') \<Longrightarrow> tempFiles w' = tempFiles w"
  by (auto simp: generateFromUser_def
      split: sum.splits option.splits prod.splits
      dest!: tempFiles_findDuplicateFromUuid tempFiles_getMojangHash)

lemma findUsable_accounts_run:
  "findUsable env0 world_accounts =
     (Some (account_used\<lparr>lastSelected := Some 1000\<rparr>),
      \<lparr>skins = [], accounts = [account_used\<lparr>lastSelected := Some 1000\<rparr>], lockedAccounts = [2],
        tempFiles = [], events = [AccountLocked 2]\<rparr>)"
  by (simp add: findUsable_def world_accounts_def usable_def mongo_lt_def error_threshold_def
      env0_def account_used_def Let_def or_zero_def save_account_def emit_def)

lemma upload_failure_run:
  "generateFromUpload env0 upload0 options0 world_accounts =
     (Inl (GeneratorError SKIN_CHANGE_FAILED), options0,
      \<lparr>skins = [],
        accounts = [account_used\<lparr>lastSelected := Some 1000, lastUsed := Some 1001,
                      successCounter := Some 0, errorCounter := Some 3,
                      totalErrorCounter := Some 5\<rparr>],
        lockedAccounts = [2], tempFiles = [],
        events = [TempCreated 1, AccountLocked 2, SkinChangeRequest 2, TempRemoved 1]\<rparr>)"
  by (simp add: generateFromUpload_def generateFromUpload_try_def
      catch_finally_def validateAndGenerate_def runGeneration_def getAndAuthenticateAccount_def
      handleGenerateError_def updateRequestServer_def incr_def truthy_def
      validateTempFile_def validateImageData_clear findDuplicateFromImageHash_def
      findOne_def Temp_file_def Temp_copyUploadedImage_def Temp_write_def
      Temp_remove_def readFile_def fresh_def emit_def save_account_def
      MAX_IMAGE_SIZE_def ALLOWED_IMAGE_TYPES_def findUsable_def usable_def mongo_lt_def
      error_threshold_def or_zero_def
      upload0_def content0_def options0_def world_accounts_def hash0_def Let_def
      env0_def account_used_def)

lemma tempFiles_entry_points:
  "tempFiles (snd (generateFromUrlAndSave E url options client w)) = tempFiles w \<and>
   tempFiles (snd (generateFromUploadAndSave E file options client w)) = tempFiles w \<and>
   tempFiles (snd (generateFromUserAndSave E user options client w)) = tempFiles w"
proof (intro conjI)
  obtain r a tf o' w1 where t: "generateFromUrl_try E url options w = (r, a, tf, o', w1)"
    by (cases "generateFromUrl_try E url options w")
  obtain rc oc wc where c: "catch_finally E (r, a, tf, o', w1) = (rc, oc, wc)"
    by (cases "catch_finally E (r, a, tf, o', w1)")
  from tempFiles_catch_finally [OF only_temp_generateFromUrl_try [OF t], of E r a o'] c
  have "tempFiles wc = tempFiles w" by simp
  with t c tempFiles_andSave [of E client URL rc oc wc]
  show "tempFiles (snd (generateFromUrlAndSave E url options client w)) = tempFiles w"
    by (simp add: generateFromUrlAndSave_def generateFromUrl_def)
next
  obtain r a tf o' w1 where t: "generateFromUpload_try E file options w = (r, a, tf, o', w1)"
    by (cases "generateFromUpload_try E file options w")
  obtain rc oc wc where c: "catch_finally E (r, a, tf, o', w1) = (rc, oc, wc)"
    by (cases "catch_finally E (r, a, tf, o', w1)")
  from tempFiles_catch_finally [OF only_temp_generateFromUpload_try [OF t], of E r a o'] c
  have "tempFiles wc = tempFiles w" by simp
  with t c tempFiles_andSave [of E client UPLOAD rc oc wc]
  show "tempFiles (snd (generateFromUploadAndSave E file options client w)) = tempFiles w"
    by (simp add: generateFromUploadAndSave_def generateFromUpload_def)
next
  obtain r w1 where u: "generateFromUser E user options w = (r, w1)"
    by (cases "generateFromUser E user options w")
  from tempFiles_generateFromUser [OF u] u tempFiles_andSave [of E client USER r options w1]
  show "tempFiles (snd (generateFromUserAndSave E user options client w)) = tempFiles w"
    by (simp add: generateFromUserAndSave_def)
qed


lemma released_iff:
  "released evs \<longleftrightarrow> (\<forall>h. TempCreated h \<in> set evs \<longrightarrow> TempRemoved h \<in> set evs)"
  by (auto simp: released_def list_all_iff split: event.splits)

lemma released_append: "released a \<Longrightarrow> released b \<Longrightarrow> released (a @ b)"
  by (auto simp: released_iff)

lemma released_quiet: "list_all (\<lambda>e. \<not> is_temp_created e) evs \<Longrightarrow> released evs"
  by (force simp: released_iff list_all_iff)

lemma settles_iff:
  "settles w w' \<longleftrightarrow> (\<exists>new. events w' = events w @ new \<and> released new)"
proof
  assume "settles w w'"
  then have "events w' = events w @ new_events w w'" "released (new_events w w')"
    by (simp_all add: settles_def new_events_def) (metis append_take_drop_id)
  then show "\<exists>new. events w' = events w @ new \<and> released new" by blast
next
  assume "\<exists>new. events w' = events w @ new \<and> released new"
  then show "settles w w'" by (auto simp: settles_def new_events_def)
qed

lemma opens_iff:
  "opens h w w' \<longleftrightarrow> (\<exists>new. events w' = events w @ new \<and> released (new @ [TempRemoved h]))"
proof
  assume "opens h w w'"
  then have "events w' = events w @ new_events w w'"
    "released (new_events w w' @ [TempRemoved h])"
    by (simp_all add: opens_def new_events_def) (metis append_take_drop_id)
  then show "\<exists>new. events w' = events w @ new \<and> released (new @ [TempRemoved h])" by blast
next
  assume "\<exists>new. events w' = events w @ new \<and> released (new @ [TempRemoved h])"
  then show "opens h w w'" by (auto simp: opens_def new_events_def)
qed

lemma settles_refl [simp]: "settles w w"
  by (simp add: settles_iff released_iff)

lemma settles_trans: "settles w w1 \<Longrightarrow> settles w1 w2 \<Longrightarrow> settles w w2"
  by (auto simp: settles_iff intro: released_append)

lemma grows_settles:
  "grows (\<lambda>e. \<not> is_temp_created e) (events w) (events w') \<Longrightarrow> settles w w'"
  by (auto simp: grows_iff settles_iff intro: released_quiet)

lemma settles_events: "events w2 = events w1 \<Longrightarrow> settles w w1 \<Longrightarrow> settles w w2"
  by (simp add: settles_def new_events_def)

lemma opens_events: "events w2 = events w1 \<Longrightarrow> opens h w w1 \<Longrightarrow> opens h w w2"
  by (simp add: opens_def new_events_def)

lemma opens_settles: "opens h w w1 \<Longrightarrow> settles w1 w2 \<Longrightarrow> opens h w w2"
  by (auto simp: opens_iff settles_iff released_iff)

lemma settles_opens: "settles w w1 \<Longrightarrow> opens h w1 w2 \<Longrightarrow> opens h w w2"
  by (auto simp: opens_iff settles_iff released_iff)

lemma opens_Temp_file: "Temp_file w = (h, w1) \<Longrightarrow> opens h w w1"
  by (auto simp: Temp_file_def Let_def opens_iff released_iff)

lemma opens_remove: "opens h w w1 \<Longrightarrow> settles w (Temp_remove h w1)"
  by (auto simp: opens_iff settles_iff Temp_remove_def)

lemma settles_remove: "settles w w1 \<Longrightarrow> settles w (Temp_remove h w1)"
  by (auto simp: settles_iff Temp_remove_def released_iff)

lemma events_Temp_write [simp]: "events (Temp_write h c w) = events w"
  by (simp add: Temp_write_def)

lemma opens_download:
  "Temp_downloadImage E url h w1 = Some w2 \<Longrightarrow> opens h w w1 \<Longrightarrow> opens h w w2"
  by (auto simp: Temp_downloadImage_def split: option.splits intro: opens_events [rotated])

lemma opens_copy:
  "Temp_copyUploadedImage file h w1 = Some w2 \<Longrightarrow> opens h w w1 \<Longrightarrow> opens h w w2"
  by (auto simp: Temp_copyUploadedImage_def split: if_splits intro: opens_events [rotated])

lemma settles_countDuplicate: "countDuplicate s source type w = (r, w') \<Longrightarrow> settles w w'"
  by (auto simp: countDuplicate_def Let_def settles_iff released_iff)

lemma settles_findDuplicateFromUrl:
  "findDuplicateFromUrl E url options type w = (r, w') \<Longrightarrow> settles w w'"
  by (auto simp: findDuplicateFromUrl_def split: if_splits option.splits prod.splits
      dest: settles_countDuplicate)

lemma settles_findDuplicateFromImageHash:
  "findDuplicateFromImageHash hash options type w = (r, w') \<Longrightarrow> settles w w'"
  by (auto simp: findDuplicateFromImageHash_def split: if_splits option.splits
      dest: settles_countDuplicate)

lemma settles_findDuplicateFromUuid:
  "findDuplicateFromUuid uuid options type w = (r, w') \<Longrightarrow> settles w w'"
  by (auto simp: findDuplicateFromUuid_def split: if_splits option.splits
      dest: settles_countDuplicate)

lemma settles_validateTempFile:
  "validateTempFile f options type w = (r, options', w') \<Longrightarrow> settles w w'"
  by (auto simp: validateTempFile_def Let_def
      split: if_splits option.splits sum.splits prod.splits
      dest: settles_findDuplicateFromImageHash)

lemma settles_findUsable: "findUsable E w = (r, w') \<Longrightarrow> settles w w'"
  by (auto simp: findUsable_def Let_def settles_iff released_iff split: list.splits)

lemma settles_getAndAuthenticateAccount:
  "getAndAuthenticateAccount E w = (r, w') \<Longrightarrow> settles w w'"
  by (auto simp: getAndAuthenticateAccount_def split: prod.splits option.splits sum.splits
      dest: settles_findUsable)

lemma settles_handleGenerateSuccess: "handleGenerateSuccess a w = (r, w') \<Longrightarrow> settles w w'"
  by (auto simp: handleGenerateSuccess_def Let_def settles_iff released_iff split: option.splits)

lemma settles_handleGenerateError: "settles w (snd (handleGenerateError E e a w))"
  by (auto simp: handleGenerateError_def Let_def settles_iff released_iff split: option.splits)

lemma settles_getMojangHash: "getMojangHash E url w = (r, w') \<Longrightarrow> settles w w'"
proof -
  assume run: "getMojangHash E url w = (r, w')"
  obtain h w1 where t: "Temp_file w = (h, w1)" by (cases "Temp_file w")
  note o1 = opens_Temp_file [OF t]
  show ?thesis
  proof (cases "Temp_downloadImage E url h w1")
    case None
    with run t have "w' = Temp_remove h w1" by (simp add: getMojangHash_def)
    with o1 show ?thesis by (simp add: opens_remove)
  next
    case (Some w2)
    with run t have "w' = Temp_remove h w2"
      by (auto simp: getMojangHash_def split: option.splits)
    with opens_download [OF Some o1] show ?thesis by (simp add: opens_remove)
  qed
qed

lemma settles_emit_right:
  "settles w x \<Longrightarrow> \<not> is_temp_created e \<Longrightarrow> settles w (emit e x)"
  by (cases e) (auto simp: settles_iff released_iff)

lemma settles_then_getMojangHash:
  "getMojangHash E u w2 = (x, w3) \<Longrightarrow> settles w w2 \<Longrightarrow> settles w w3"
  by (blast intro: settles_trans dest: settles_getMojangHash)

lemma settles_then_handleGenerateSuccess:
  "handleGenerateSuccess a w3 = (r, w4) \<Longrightarrow> settles w w3 \<Longrightarrow> settles w w4"
  by (blast intro: settles_trans dest: settles_handleGenerateSuccess)

lemma settles_runGeneration: "runGeneration E v w = (r, a, w') \<Longrightarrow> settles w w'"
proof -
  assume run: "runGeneration E v w = (r, a, w')"
  obtain ra w1 where g: "getAndAuthenticateAccount E w = (ra, w1)"
    by (cases "getAndAuthenticateAccount E w")
  from settles_getAndAuthenticateAccount [OF g] have n1: "settles w w1" .
  show ?thesis
  proof (cases ra)
    case (Inl e)
    with run g n1 show ?thesis by (simp add: runGeneration_def)
  next
    case (Inr account)
    have n2: "settles w (emit (SkinChangeRequest (acc_id account)) w1)"
      by (rule settles_emit_right [OF n1]) simp
    from run g Inr n2 show ?thesis
      by (auto simp: runGeneration_def Let_def
          split: SkinChange.splits sum.splits option.splits prod.splits
          dest: settles_then_getMojangHash settles_then_handleGenerateSuccess)
  qed
qed

lemma settles_validateAndGenerate:
  "validateAndGenerate E f options type w = (r, a, options', w') \<Longrightarrow> settles w w'"
proof -
  assume run: "validateAndGenerate E f options type w = (r, a, options', w')"
  obtain rv ov w1 where v: "validateTempFile f options type w = (rv, ov, w1)"
    by (cases "validateTempFile f options type w")
  note s1 = settles_validateTempFile [OF v]
  from run v s1 show ?thesis
    by (auto simp: validateAndGenerate_def split: sum.splits option.splits prod.splits
        dest!: settles_runGeneration intro: settles_trans)
qed

lemma opens_generateFromUpload_try:
  "generateFromUpload_try E file options w = (r, a, tf, options', w') \<Longrightarrow>
     (case tf of None \<Rightarrow> settles w w' | Some h \<Rightarrow> opens h w w')"
proof -
  assume run: "generateFromUpload_try E file options w = (r, a, tf, options', w')"
  obtain h w1 where t: "Temp_file w = (h, w1)" by (cases "Temp_file w")
  note o1 = opens_Temp_file [OF t]
  show ?thesis
  proof (cases "Temp_copyUploadedImage file h w1")
    case None
    with run t o1 show ?thesis by (auto simp: generateFromUpload_try_def)
  next
    case (Some w2)
    note o2 = opens_copy [OF Some o1]
    from run t Some have "validateAndGenerate E h options UPLOAD w2 = (r, a, options', w')"
      and "tf = Some h"
      by (auto simp: generateFromUpload_try_def split: prod.splits)
    with o2 show ?thesis by (auto dest!: settles_validateAndGenerate intro: opens_settles)
  qed
qed

lemma opens_generateFromUrl_try:
  "generateFromUrl_try E url options w = (r, a, tf, options', w') \<Longrightarrow>
     (case tf of None \<Rightarrow> settles w w' | Some h \<Rightarrow> opens h w w')"
proof -
  assume run: "generateFromUrl_try E url options w = (r, a, tf, options', w')"
  show ?thesis
  proof (cases "followUrl E url")
    case None
    with run show ?thesis by (auto simp: generateFromUrl_try_def)
  next
    case (Some resp)
    obtain rd w1 where d: "findDuplicateFromUrl E (responseUrl resp) options URL w = (rd, w1)"
      by (cases "findDuplicateFromUrl E (responseUrl resp) options URL w")
    note s1 = settles_findDuplicateFromUrl [OF d]
    obtain h w2 where t: "Temp_file w1 = (h, w2)" by (cases "Temp_file w1")
    from opens_Temp_file [OF t] s1 have o2: "opens h w w2" by (blast intro: settles_opens)
    from run Some d t consider "tf = None" "w' = w" | "tf = None" "w' = w1"
      | "tf = Some h" "w' = w2"
      | w3 where "tf = Some h" "Temp_downloadImage E (responseUrl resp) h w2 = Some w3"
          "validateAndGenerate E h options URL w3 = (r, a, options', w')"
      by (auto simp: generateFromUrl_try_def Let_def
          split: if_splits option.splits prod.splits)
    then show ?thesis
    proof cases
      case 1
      then show ?thesis by simp
    next
      case 2
      with s1 show ?thesis by simp
    next
      case 3
      with o2 show ?thesis by simp
    next
      case 4
      from opens_download [OF 4(2) o2] 4(1,3) show ?thesis
        by (auto dest!: settles_validateAndGenerate intro: opens_settles)
    qed
  qed
qed

lemma settles_catch_finally:
  "(case tf of None \<Rightarrow> settles w w1 | Some h \<Rightarrow> opens h w w1) \<Longrightarrow>
     settles w (snd (snd (catch_finally E (r, a, tf, options, w1))))"
proof -
  assume o: "case tf of None \<Rightarrow> settles w w1 | Some h \<Rightarrow> opens h w w1"
  let ?w2 = "case r of Inl e \<Rightarrow> snd (handleGenerateError E e a w1) | Inr res \<Rightarrow> w1"
  have s: "settles w1 ?w2"
    by (cases r) (simp_all add: settles_handleGenerateError)
  show ?thesis
  proof (cases tf)
    case None
    with o s show ?thesis by (auto simp: catch_finally_def Let_def intro: settles_trans)
  next
    case (Some h)
    with o s have "opens h w ?w2" by (auto intro: opens_settles)
    then have "settles w (Temp_remove h ?w2)" by (rule opens_remove)
    with Some show ?thesis by (simp add: catch_finally_def Let_def)
  qed
qed

lemma settles_saveSkin:
  "saveSkin E result options client type start w = (r, w') \<Longrightarrow> settles w w'"
  by (auto simp: saveSkin_def insert_skin_def Let_def settles_iff released_iff
      split: sum.splits option.splits)

lemma settles_emit_left:
  "settles (emit e w) x \<Longrightarrow> \<not> is_temp_created e \<Longrightarrow> settles w x"
  by (cases e) (auto simp: settles_iff released_iff)

lemma settles_getDuplicateOrSaved:
  "getDuplicateOrSaved E result options client type start w = (r, w') \<Longrightarrow> settles w w'"
  by (auto simp: getDuplicateOrSaved_def split: option.splits
      dest!: settles_saveSkin intro: settles_emit_left)

lemma settles_andSave: "settles w (snd (andSave E client type (r, options, w)))"
  by (auto simp: andSave_def split: sum.splits prod.splits
      dest!: settles_getDuplicateOrSaved intro: settles_emit_right)

lemma settles_generateFromUser:
  "generateFromUser E uuid options w = (r, w') \<Longrightarrow> settles w w'"
proof -
  assume run: "generateFromUser E uuid options w = (r, w')"
  show ?thesis
  proof (cases "longAndShortUuid E uuid")
    case None
    with run show ?thesis by (simp add: generateFromUser_def)
  next
    case (Some p)
    obtain long short where p: "p = (long, short)" by (cases p)
    obtain rd w1 where d: "findDuplicateFromUuid long options USER w = (rd, w1)"
      by (cases "findDuplicateFromUuid long options USER w")
    note s1 = settles_findDuplicateFromUuid [OF d]
    from run Some p d s1 show ?thesis
      by (auto simp: generateFromUser_def
          split: sum.splits option.splits prod.splits
          dest: settles_then_getMojangHash)
  qed
qed

lemma released_entry_points:
  "released (new_events w (snd (generateFromUrlAndSave E url options client w)))"
  "released (new_events w (snd (generateFromUploadAndSave E file options client w)))"
  "released (new_events w (snd (generateFromUserAndSave E user options client w)))"
proof -
  obtain r a tf o' w1 where t: "generateFromUrl_try E url options w = (r, a, tf, o', w1)"
    by (cases "generateFromUrl_try E url options w")
  obtain rc oc wc where c: "catch_finally E (r, a, tf, o', w1) = (rc, oc, wc)"
    by (cases "catch_finally E (r, a, tf, o', w1)")
  from settles_catch_finally [OF opens_generateFromUrl_try [OF t], of E r a o'] c
  have "settles w wc" by simp
  with settles_andSave [of wc E client URL rc oc]
  have "settles w (snd (andSave E client URL (rc, oc, wc)))" by (rule settles_trans [rotated])
  with t c show "released (new_events w (snd (generateFromUrlAndSave E url options client w)))"
    by (simp add: generateFromUrlAndSave_def generateFromUrl_def settles_def)
next
  obtain r a tf o' w1 where t: "generateFromUpload_try E file options w = (r, a, tf, o', w1)"
    by (cases "generateFromUpload_try E file options w")
  obtain rc oc wc where c: "catch_finally E (r, a, tf, o', w1) = (rc, oc, wc)"
    by (cases "catch_finally E (r, a, tf, o', w1)")
  from settles_catch_finally [OF opens_generateFromUpload_try [OF t], of E r a o'] c
  have "settles w wc" by simp
  with settles_andSave [of wc E client UPLOAD rc oc]
  have "settles w (snd (andSave E client UPLOAD (rc, oc, wc)))" by (rule settles_trans [rotated])
  with t c
  show "released (new_events w (snd (generateFromUploadAndSave E file options client w)))"
    by (simp add: generateFromUploadAndSave_def generateFromUpload_def settles_def)
next
  obtain r w1 where u: "generateFromUser E user options w = (r, w1)"
    by (cases "generateFromUser E user options w")
  from settles_generateFromUser [OF u] settles_andSave [of w1 E client USER r options]
  have "settles w (snd (andSave E client USER (r, options, w1)))" by (rule settles_trans)
  with u show "released (new_events w (snd (generateFromUserAndSave E user options client w)))"
    by (simp add: generateFromUserAndSave_def settles_def)
qed

text \<open>
  C9. Whatever the inputs and the answers of the outside are, and so on every path
  (a result, a duplicate, a validation error, a failure upstream, any other error), each
  of the three entry points leaves the temporary files as it found them, and every
  temporary file the request created (a handle is new when it is acquired) it also
  removed before it completed.
\<close>

theorem temp_files_released:
  assumes "w' = snd (generateFromUrlAndSave E url options client w) \<or>
      w' = snd (generateFromUploadAndSave E file options client w) \<or>
      w' = snd (generateFromUserAndSave E user options client w)"
  shows "tempFiles w' = tempFiles w \<and>
      (\<forall>h. TempCreated h \<in> set (new_events w w') \<longrightarrow> TempRemoved h \<in> set (new_events w w'))"
proof -
  from assms tempFiles_entry_points [of E url options client w "file" user]
  have "tempFiles w' = tempFiles w" by auto
  moreover from assms have "released (new_events w w')"
    by (auto simp: released_entry_points)
  ultimately show ?thesis by (simp add: released_iff)
qed

theorem temp_files_released_witness:
  "fst (generateFromUploadAndSave env0 upload0 options0 client0 world_accounts)
     = Inl (GeneratorError SKIN_CHANGE_FAILED) \<and>
   TempCreated 1
     \<in> set (new_events world_accounts
         (snd (generateFromUploadAndSave env0 upload0 options0 client0 world_accounts))) \<and>
   TempRemoved 1
     \<in> set (new_events world_accounts
         (snd (generateFromUploadAndSave env0 upload0 options0 client0 world_accounts))) \<and>
   tempFiles (snd (generateFromUploadAndSave env0 upload0 options0 client0 world_accounts)) = []"
proof -
  let ?w = "snd (generateFromUploadAndSave env0 upload0 options0 client0 world_accounts)"
  have c: "TempCreated 1 \<in> set (new_events world_accounts ?w)"
    by (simp add: generateFromUploadAndSave_def upload_failure_run andSave_def new_events_def)
      (simp add: world_accounts_def)
  have e: "tempFiles world_accounts = []" by (simp add: world_accounts_def)
  have r: "fst (generateFromUploadAndSave env0 upload0 options0 client0 world_accounts)
     = Inl (GeneratorError SKIN_CHANGE_FAILED)"
    by (simp add: generateFromUploadAndSave_def upload_failure_run andSave_def)
  from temp_files_released [of ?w env0 _ options0 client0 world_accounts upload0] c e r
  show ?thesis by auto
qed

section \<open>The timestamps of an account\<close>

lemma saved_account_is:
  "x \<in> set (accounts (save_account a w)) \<Longrightarrow> acc_oid x = acc_oid a \<Longrightarrow> x = a"
  by (auto simp: save_account_def)

lemma findUsable_stamp:
  "findUsable E w = (Some acc, w1) \<Longrightarrow>
     lastSelected acc = Some (time_selected E) \<and> acc \<in> set (accounts w1)"
proof -
  assume run: "findUsable E w = (Some acc, w1)"
  let ?us = "filter (usable E (time_selected E) (lockedAccounts w)) (accounts w)"
  let ?key = "\<lambda>a. (lastUsed a, lastSelected a, sameTextureCounter a)"
  from run obtain a rest where s: "sort_key ?key ?us = a # rest"
    by (auto simp: findUsable_def Let_def split: list.splits)
  from sort_key_hd_in [OF s] have a: "a \<in> set (accounts w)" by simp
  from run s have l: "lastSelected acc = Some (time_selected E)" and o: "acc_oid acc = acc_oid a"
    and w1: "accounts w1 = map (\<lambda>x. if acc_oid x = acc_oid acc then acc else x) (accounts w)"
    by (auto simp: findUsable_def Let_def)
  from a o have "acc \<in> (\<lambda>x. if acc_oid x = acc_oid acc then acc else x) ` set (accounts w)"
    by (intro image_eqI [of _ _ a]) simp_all
  with l w1 show ?thesis by simp
qed

lemma getAndAuthenticateAccount_stamp:
  "getAndAuthenticateAccount E w = (Inr acc, w1) \<Longrightarrow> lastUsed acc = Some (time_used E)"
  by (auto simp: getAndAuthenticateAccount_def updateRequestServer_def Let_def
      split: prod.splits option.splits sum.splits)

lemma runGeneration_stamp:
  "runGeneration E v w = (r, Some acc, w1) \<Longrightarrow>
     lastUsed acc = Some (time_used E) \<and>
     (case r of
        Inl e \<Rightarrow> True
      | Inr res \<Rightarrow> (\<forall>a\<in>set (accounts w1). acc_oid a = acc_oid acc \<longrightarrow> a = acc))"
  by (auto simp: runGeneration_def handleGenerateSuccess_def Let_def
      split: SkinChange.splits sum.splits option.splits prod.splits
      dest!: getAndAuthenticateAccount_stamp)

lemma handleGenerateError_lastUsed:
  "a \<in> set (accounts (snd (handleGenerateError E e (Some acc) w))) \<Longrightarrow>
     acc_oid a = acc_oid acc \<Longrightarrow> lastUsed a = lastUsed acc"
  by (auto simp: handleGenerateError_def updateRequestServer_def Let_def split: if_splits)

lemma handleGenerateSuccess_lastUsed:
  "a \<in> set (accounts (snd (handleGenerateSuccess (Some acc) w))) \<Longrightarrow>
     acc_oid a = acc_oid acc \<Longrightarrow> lastUsed a = lastUsed acc"
  by (auto simp: handleGenerateSuccess_def Let_def split: if_splits)

lemma accounts_Temp_remove [simp]: "accounts (Temp_remove h w) = accounts w"
  by (simp add: Temp_remove_def)

lemma runGeneration_failure_run:
  "runGeneration env0 validation0 world_accounts =
     (Inl (GeneratorError SKIN_CHANGE_FAILED),
      Some (account_used\<lparr>lastSelected := Some 1000, lastUsed := Some 1001\<rparr>),
      \<lparr>skins = [], accounts = [account_used\<lparr>lastSelected := Some 1000\<rparr>], lockedAccounts = [2],
        tempFiles = [], events = [AccountLocked 2, SkinChangeRequest 2]\<rparr>)"
  apply (simp add: runGeneration_def getAndAuthenticateAccount_def findUsable_accounts_run)
  apply (simp add: env0_def account_used_def updateRequestServer_def truthy_def emit_def Let_def)
  done

text \<open>
  C6, as the code has it. \<^verbatim>\<open>findUsable\<close> sets \<^verbatim>\<open>lastSelected\<close> to the second
  of the acquire and saves the account. \<^verbatim>\<open>getAndAuthenticateAccount\<close> sets
  \<^verbatim>\<open>lastUsed\<close> to the current second as soon as the authentication has succeeded,
  so at the acquire too. When the generation has its account (the variable
  \<^verbatim>\<open>account\<close> is set), the account carries that \<^verbatim>\<open>lastUsed\<close>, and after the
  \<^verbatim>\<open>catch\<close> and \<^verbatim>\<open>finally\<close> blocks the stored account has it, whether the
  generation succeeded (saved by \<^verbatim>\<open>handleGenerateSuccess\<close>) or failed (saved by
  \<^verbatim>\<open>handleGenerateError\<close>).
\<close>

theorem acquire_stamps:
  "(findUsable E w = (Some selected, w1) \<longrightarrow>
      lastSelected selected = Some (time_selected E) \<and> selected \<in> set (accounts w1)) \<and>
   (getAndAuthenticateAccount E w = (Inr authenticated, w2) \<longrightarrow>
      lastUsed authenticated = Some (time_used E)) \<and>
   (runGeneration E v w = (r, Some acc, w3) \<longrightarrow>
      lastUsed acc = Some (time_used E) \<and>
      (\<forall>a\<in>set (accounts (snd (snd (catch_finally E (r, Some acc, tf, options, w3))))).
          acc_oid a = acc_oid acc \<longrightarrow> lastUsed a = Some (time_used E)))"
proof (intro conjI impI)
  assume "findUsable E w = (Some selected, w1)"
  from findUsable_stamp [OF this]
  show "lastSelected selected = Some (time_selected E)" "selected \<in> set (accounts w1)"
    by simp_all
next
  assume "getAndAuthenticateAccount E w = (Inr authenticated, w2)"
  then show "lastUsed authenticated = Some (time_used E)"
    by (rule getAndAuthenticateAccount_stamp)
next
  assume run: "runGeneration E v w = (r, Some acc, w3)"
  from runGeneration_stamp [OF run] show u: "lastUsed acc = Some (time_used E)" by simp
  show "\<forall>a\<in>set (accounts (snd (snd (catch_finally E (r, Some acc, tf, options, w3))))).
          acc_oid a = acc_oid acc \<longrightarrow> lastUsed a = Some (time_used E)"
  proof (cases r)
    case (Inl e)
    have "accounts (snd (snd (catch_finally E (r, Some acc, tf, options, w3))))
        = accounts (snd (handleGenerateError E e (Some acc) w3))"
      using Inl by (cases tf) (simp_all add: catch_finally_def Let_def)
    with u show ?thesis by (auto dest: handleGenerateError_lastUsed)
  next
    case (Inr res)
    have "accounts (snd (snd (catch_finally E (r, Some acc, tf, options, w3)))) = accounts w3"
      using Inr by (cases tf) (simp_all add: catch_finally_def Let_def)
    with runGeneration_stamp [OF run] Inr u show ?thesis by auto
  qed
qed

theorem acquire_stamps_witness:
  "fst (findUsable env0 world_accounts) = Some (account_used\<lparr>lastSelected := Some 1000\<rparr>) \<and>
   time_selected env0 = 1000 \<and> time_used env0 = 1001 \<and>
   lastSelected (account_used\<lparr>lastSelected := Some 1000\<rparr>) = Some (time_selected env0) \<and>
   fst (snd (runGeneration env0 validation0 world_accounts))
     = Some (account_used\<lparr>lastSelected := Some 1000, lastUsed := Some 1001\<rparr>) \<and>
   (case runGeneration env0 validation0 world_accounts of
      (r, a, w3) \<Rightarrow>
        map lastUsed (accounts (snd (snd (catch_finally env0 (r, a, None, options0, w3)))))
          = [Some (time_used env0)])"
proof -
  let ?acc = "account_used\<lparr>lastSelected := Some 1000, lastUsed := Some 1001\<rparr>"
  let ?w3 = "\<lparr>skins = [], accounts = [account_used\<lparr>lastSelected := Some 1000\<rparr>],
      lockedAccounts = [2], tempFiles = [], events = [AccountLocked 2, SkinChangeRequest 2]\<rparr>"
  let ?fin = "snd (snd (catch_finally env0
      (Inl (GeneratorError SKIN_CHANGE_FAILED), Some ?acc, None, options0, ?w3)))"
  note th = acquire_stamps [of env0 world_accounts "account_used\<lparr>lastSelected := Some 1000\<rparr>"
      _ _ _ validation0 "Inl (GeneratorError SKIN_CHANGE_FAILED)" ?acc ?w3 None options0]
  from th findUsable_accounts_run
  have s: "lastSelected (account_used\<lparr>lastSelected := Some 1000\<rparr>) = Some (time_selected env0)"
    by simp
  from th runGeneration_failure_run
  have u: "\<forall>a\<in>set (accounts ?fin). acc_oid a = acc_oid ?acc \<longrightarrow> lastUsed a = Some (time_used env0)"
    by simp
  have "accounts ?fin = [?acc\<lparr>successCounter := Some 0, errorCounter := Some 3,
      totalErrorCounter := Some 5\<rparr>]"
    by (simp add: catch_finally_def handleGenerateError_def incr_def Let_def account_used_def)
  with u have "map lastUsed (accounts ?fin) = [Some (time_used env0)]" by simp
  with s show ?thesis
    unfolding runGeneration_failure_run findUsable_accounts_run
    by (simp add: env0_def)
qed

text \<open>
  C6 as it is stated fails: an upload whose skin change is rejected upstream releases the
  account with a failure, and the stored \<^verbatim>\<open>lastUsed\<close> of the account is then the
  second of the acquire (1001), not its value before (100).
\<close>

theorem release_failure_counterexample:
  "fst (generateFromUpload env0 upload0 options0 world_accounts)
     = Inl (GeneratorError SKIN_CHANGE_FAILED) \<and>
   map lastUsed (accounts world_accounts) = [Some 100] \<and>
   time_used env0 = 1001 \<and>
   map lastUsed (accounts (snd (snd (generateFromUpload env0 upload0 options0 world_accounts))))
     = [Some 1001]"
  unfolding upload_failure_run by (simp add: world_accounts_def account_used_def env0_def)


end
